theory Spec2Isabelle
  imports Complex_Main "HOL-Library.Multiset"
begin

section \<open>Learn Mode: the adaptive scheduler of the flashcard application\<close>

text \<open>
  The development embeds \<^verbatim>\<open>src/pages/LearnMode.tsx\<close>. The component keeps its cards as
  JavaScript objects that several arrays may reference at once, and it mutates those
  objects in place. Card objects therefore live in a store (addresses to objects); an
  array of cards is a list of addresses. Arrays themselves are never mutated after they
  are built (every sort works on a fresh copy), so they are plain HOL lists.

  Confidence values are JavaScript numbers, but the component only ever writes the
  constant 50 and results of adding 20, subtracting 25, \<^verbatim>\<open>Math.min\<close> and \<^verbatim>\<open>Math.max\<close>;
  they are modelled as unbounded integers. The two places that leave the integers
  (\<^verbatim>\<open>length * 0.4\<close> and the mean) are computed over the reals, which is what the
  double-precision results agree with for every array length a browser can hold.
\<close>

subsection \<open>Data model\<close>

type_synonym addr = nat

text \<open>
  A JavaScript string is a sequence of UTF-16 code units, each a number below \<open>2^16\<close>.
  The strings the user types and the texts of a card are such sequences; identifiers
  and titles, which the component only passes on, are kept as HOL strings.
\<close>

type_synonym code_unit = nat

type_synonym jsstring = "code_unit list"

text \<open>
  A card object as it exists at run time: the columns of the \<^verbatim>\<open>flashcards\<close> table
  (\<^verbatim>\<open>select("*")\<close>) and the two optional learning attributes of the \<^verbatim>\<open>Flashcard\<close>
  interface. \<^verbatim>\<open>id\<close>, \<^verbatim>\<open>term\<close> and \<^verbatim>\<open>definition\<close> are renamed, the names being taken.
\<close>

record Flashcard =
  card_id :: string
  term_text :: jsstring
  definition_text :: jsstring
  image_url :: "string option"
  set_id :: string
  position :: int
  confidence :: "int option"
  lastSeen :: "int option"

type_synonym store = "addr \<Rightarrow> Flashcard"

text \<open>The values of the component's \<^verbatim>\<open>useState\<close> hooks, as one render sees them.\<close>

record LearnMode =
  setTitle :: string
  flashcards :: "addr list"
  currentIndex :: nat
  userAnswer :: jsstring
  showAnswer :: bool
  correctCount :: nat
  streak :: nat
  typingMode :: bool
  showSettings :: bool
  showHints :: bool
  showImages :: bool
  spacedRepetition :: bool
  isLoading :: bool

text \<open>
  What a JavaScript expression can do besides yielding an index: throw a
  \<^verbatim>\<open>TypeError\<close> (a property read on \<^verbatim>\<open>undefined\<close>) or yield \<^verbatim>\<open>NaN\<close>.
\<close>

datatype failure = TypeError | NotANumber

subsection \<open>JavaScript primitives\<close>

text \<open>
  \<^verbatim>\<open>x || d\<close> on an optional number: \<^verbatim>\<open>undefined\<close> and \<^verbatim>\<open>0\<close> are both falsy, so both
  yield the default.
\<close>

definition js_or :: "int option \<Rightarrow> int \<Rightarrow> int" where
  "js_or x d = (case x of None \<Rightarrow> d | Some v \<Rightarrow> if v = 0 then d else v)"

text \<open>\<^verbatim>\<open>Math.round\<close>: the nearest integer, a tie going up.\<close>

definition js_round :: "real \<Rightarrow> int" where
  "js_round x = \<lfloor>x + 1 / 2\<rfloor>"

subsection \<open>The confidence update (lines 97 to 112)\<close>

text \<open>
  \<^verbatim>\<open>updated\<close> is a copy of the array, holding the same objects; the assignment to
  \<^verbatim>\<open>current.confidence\<close> changes the object itself, for every array that refers to it.
  An index outside the array reads \<^verbatim>\<open>undefined\<close>, and the property read on it throws.
\<close>

definition updateConfidence ::
  "LearnMode \<Rightarrow> store \<Rightarrow> bool \<Rightarrow> int \<Rightarrow> failure + (store \<times> LearnMode)" where
  "updateConfidence st h correct now =
     (let updated = flashcards st in
      if currentIndex st < length updated then
        let a = updated ! currentIndex st;
            current = h a;
            c = (if correct then min 100 (js_or (confidence current) 50 + 20)
                 else max 0 (js_or (confidence current) 50 - 25));
            st1 = (if correct then st\<lparr>streak := streak st + 1\<rparr> else st\<lparr>streak := 0\<rparr>)
        in Inr (h(a := current\<lparr>confidence := Some c, lastSeen := Some now\<rparr>),
                st1\<lparr>flashcards := updated\<rparr>)
      else Inl TypeError)"

subsection \<open>Next-card selection (lines 114 to 129)\<close>

text \<open>
  One entry of \<^verbatim>\<open>sortedByConfidence\<close>: the card, its index in the array and the
  confidence the ranking uses.
\<close>

record Ranked =
  r_card :: addr
  r_idx :: nat
  r_confidence :: int

text \<open>
  \<^verbatim>\<open>Array.prototype.sort\<close> is stable, and the comparator \<^verbatim>\<open>a.confidence - b.confidence\<close>
  is a consistent one, so the result is the stable sort by the key: \<^const>\<open>sort_key\<close>.
\<close>

definition sortedByConfidence :: "addr list \<Rightarrow> store \<Rightarrow> Ranked list" where
  "sortedByConfidence fs h =
     sort_key r_confidence
       (map (\<lambda>(idx, card). \<lparr>r_card = card, r_idx = idx,
                               r_confidence = js_or (confidence (h card)) 50\<rparr>)
            (enumerate 0 fs))"

definition lowConfidencePool :: "addr list \<Rightarrow> store \<Rightarrow> Ranked list" where
  "lowConfidencePool fs h =
     take (max 1 (nat \<lfloor>real (length fs) * 0.4\<rfloor>)) (sortedByConfidence fs h)"

text \<open>
  \<^verbatim>\<open>rnd\<close> is the value \<^verbatim>\<open>Math.random()\<close> returns, a number in \<open>[0, 1)\<close>. With an empty
  array the sequential branch computes \<^verbatim>\<open>1 % 0\<close>, which is \<^verbatim>\<open>NaN\<close>, and the weighted
  branch reads \<^verbatim>\<open>idx\<close> of \<^verbatim>\<open>undefined\<close>.
\<close>

definition getNextCard :: "LearnMode \<Rightarrow> store \<Rightarrow> real \<Rightarrow> failure + nat" where
  "getNextCard st h rnd =
     (if \<not> spacedRepetition st then
        (if length (flashcards st) = 0 then Inl NotANumber
         else Inr ((currentIndex st + 1) mod length (flashcards st)))
      else
        let pool = lowConfidencePool (flashcards st) h;
            k = nat \<lfloor>rnd * real (length pool)\<rfloor>
        in if k < length pool then Inr (r_idx (pool ! k)) else Inl TypeError)"

subsection \<open>Answering (lines 131 to 144)\<close>

text \<open>
  \<^verbatim>\<open>handleAnswer\<close> updates the counters and the card, and hands \<^verbatim>\<open>setTimeout\<close> a
  callback. The callback is a closure over the render in which the answer was given:
  its \<^verbatim>\<open>getNextCard\<close> reads that render's \<^verbatim>\<open>flashcards\<close>, \<^verbatim>\<open>currentIndex\<close> and
  \<^verbatim>\<open>spacedRepetition\<close>. The third component of the result is that captured render.
  Every \<^verbatim>\<open>set...\<close> call replaces a state value by one computed from the render's
  values. Where the handler throws, the result is the failure alone.
\<close>

definition handleAnswer ::
  "LearnMode \<Rightarrow> store \<Rightarrow> bool \<Rightarrow> int \<Rightarrow> failure + (store \<times> LearnMode \<times> LearnMode)" where
  "handleAnswer st h isCorrect now =
     (case updateConfidence st h isCorrect now of
        Inl e \<Rightarrow> Inl e
      | Inr (h1, st1) \<Rightarrow>
          Inr (h1,
               (if isCorrect then st1\<lparr>correctCount := correctCount st + 1\<rparr> else st1),
               st))"

text \<open>
  The callback, run a second later: \<^verbatim>\<open>closure\<close> is the render it captured, \<^verbatim>\<open>cur\<close>
  the state and \<^verbatim>\<open>h\<close> the store at the moment it runs.
\<close>

definition timeoutCallback ::
  "LearnMode \<Rightarrow> LearnMode \<Rightarrow> store \<Rightarrow> real \<Rightarrow> failure + LearnMode" where
  "timeoutCallback closure cur h rnd =
     (case getNextCard closure h rnd of
        Inl e \<Rightarrow> Inl e
      | Inr nextIdx \<Rightarrow>
          Inr (cur\<lparr>currentIndex := nextIdx, showAnswer := False, userAnswer := []\<rparr>))"

subsection \<open>Aggregate confidence (line 160)\<close>

definition avgConfidence :: "LearnMode \<Rightarrow> store \<Rightarrow> failure + int" where
  "avgConfidence st h =
     (if length (flashcards st) = 0 then Inl NotANumber
      else Inr (js_round
        (real_of_int (foldl (\<lambda>sum c. sum + js_or (confidence (h c)) 50) 0 (flashcards st))
           / real (length (flashcards st)))))"

subsection \<open>Shuffling (lines 89 to 95)\<close>

text \<open>
  What the handlers do to the world outside the component's state: notifications,
  navigation, and queries sent to the data store, in the order they happen.
\<close>

datatype effect = ToastError string | ToastSuccess string | Navigate string | Query string

text \<open>
  \<^verbatim>\<open>[...flashcards].sort(() => Math.random() - 0.5)\<close>: the comparator ignores its
  arguments and draws a fresh random number at every call, so it is not a consistent
  comparator and the order that results depends on the engine's sorting algorithm. The
  model fixes insertion sort: each element is moved left past its neighbour as long as
  the comparator's result is positive. \<^verbatim>\<open>rand k\<close> is the value of the \<open>k\<close>-th call of
  \<^verbatim>\<open>Math.random\<close>; the sorted prefix is kept reversed (its head is its last element).
\<close>

fun insert_random :: "(nat \<Rightarrow> real) \<Rightarrow> nat \<Rightarrow> 'a \<Rightarrow> 'a list \<Rightarrow> 'a list \<times> nat" where
  "insert_random rand k x [] = ([x], k)"
| "insert_random rand k x (y # ys) =
     (if rand k - 0.5 > 0 then
        (case insert_random rand (Suc k) x ys of (zs, k') \<Rightarrow> (y # zs, k'))
      else (x # y # ys, Suc k))"

fun sort_random :: "(nat \<Rightarrow> real) \<Rightarrow> nat \<Rightarrow> 'a list \<Rightarrow> 'a list \<Rightarrow> 'a list" where
  "sort_random rand k sorted_rev [] = rev sorted_rev"
| "sort_random rand k sorted_rev (x # xs) =
     (case insert_random rand k x sorted_rev of (s, k') \<Rightarrow> sort_random rand k' s xs)"

definition handleShuffle ::
  "LearnMode \<Rightarrow> store \<Rightarrow> (nat \<Rightarrow> real) \<Rightarrow> store \<times> LearnMode \<times> effect list" where
  "handleShuffle st h rand =
     (let shuffled = sort_random rand 0 [] (flashcards st)
      in (h, st\<lparr>flashcards := shuffled, currentIndex := 0, showAnswer := False\<rparr>,
          [ToastSuccess ''Cards shuffled!'']))"

subsection \<open>Session initialisation (lines 44 to 87)\<close>

text \<open>The \<^verbatim>\<open>{ data, error }\<close> object a query resolves to.\<close>

record 'a Response =
  data :: "'a option"
  error :: "string option"

record FlashcardSet =
  fset_id :: string
  title :: string

text \<open>
  Modelled from the spec: the content of the external data store (the tables
  \<^verbatim>\<open>flashcard_sets\<close> and \<^verbatim>\<open>flashcards\<close>), which is not part of the repository, and
  whether a lookup of either table fails.
\<close>

record Database =
  flashcard_sets :: "FlashcardSet list"
  flashcards_table :: "Flashcard list"
  sets_fault :: "string option"
  cards_fault :: "string option"

text \<open>
  Modelled from the spec: the lookup of a set's title in the external data store, which
  is not part of the repository. Section 6 gives it as
  \<^verbatim>\<open>getSetTitle(setId) -> title | NotFound\<close>. \<^verbatim>\<open>maybeSingle\<close> yields no data for no
  row and an error for more than one.
\<close>

definition query_set_title :: "Database \<Rightarrow> string \<Rightarrow> string Response" where
  "query_set_title db setId =
     (case sets_fault db of
        Some e \<Rightarrow> \<lparr>data = None, error = Some e\<rparr>
      | None \<Rightarrow>
          (case filter (\<lambda>s. fset_id s = setId) (flashcard_sets db) of
             [] \<Rightarrow> \<lparr>data = None, error = None\<rparr>
           | [s] \<Rightarrow> \<lparr>data = Some (title s), error = None\<rparr>
           | _ \<Rightarrow> \<lparr>data = None, error = Some ''PGRST116''\<rparr>))"

text \<open>
  Modelled from the spec: the lookup of a set's cards in the external data store.
  Section 6 gives it as
  \<^verbatim>\<open>getCardsForSet(setId, orderBy=position) -> ordered list | Error\<close>: the rows of the
  set, sorted by their position.
\<close>

definition query_cards :: "Database \<Rightarrow> string \<Rightarrow> (Flashcard list) Response" where
  "query_cards db setId =
     (case cards_fault db of
        Some e \<Rightarrow> \<lparr>data = None, error = Some e\<rparr>
      | None \<Rightarrow>
          \<lparr>data = Some (sort_key position (filter (\<lambda>c. set_id c = setId) (flashcards_table db))),
           error = None\<rparr>)"

text \<open>
  The objects \<^verbatim>\<open>cardsData.map\<close> creates are new ones: they are placed at the
  addresses from \<^verbatim>\<open>base\<close> on, the first address not in use.
\<close>

definition alloc :: "addr \<Rightarrow> Flashcard list \<Rightarrow> store \<Rightarrow> store" where
  "alloc base cs h = (\<lambda>a. if base \<le> a \<and> a < base + length cs then cs ! (a - base) else h a)"

text \<open>The \<^verbatim>\<open>catch\<close> block followed by the \<^verbatim>\<open>finally\<close> block.\<close>

definition load_failed ::
  "store \<Rightarrow> LearnMode \<Rightarrow> effect list \<Rightarrow> store \<times> LearnMode \<times> effect list" where
  "load_failed h st fx =
     (h, st\<lparr>isLoading := False\<rparr>,
      fx @ [ToastError ''Failed to load flashcards'', Navigate ''/''])"

text \<open>
  \<^verbatim>\<open>Date.now()\<close> is called once for every card; \<^verbatim>\<open>clock k\<close> is what the call for the
  card at index \<open>k\<close> returns. A response with neither data nor an error makes
  \<^verbatim>\<open>cardsData.length\<close> throw, which the \<^verbatim>\<open>catch\<close> block handles.
\<close>

definition fetchSetAndCards ::
  "Database \<Rightarrow> string \<Rightarrow> (nat \<Rightarrow> int) \<Rightarrow> addr \<Rightarrow> LearnMode \<Rightarrow> store
     \<Rightarrow> store \<times> LearnMode \<times> effect list" where
  "fetchSetAndCards db setId clock base st h =
     (let r1 = query_set_title db setId;
          fx1 = [Query ''flashcard_sets'']
      in if error r1 \<noteq> None then load_failed h st fx1
         else
          (case data r1 of
             None \<Rightarrow>
               (h, st\<lparr>isLoading := False\<rparr>,
                fx1 @ [ToastError ''Set not found'', Navigate ''/''])
           | Some t \<Rightarrow>
              (let st1 = st\<lparr>setTitle := t\<rparr>;
                   r2 = query_cards db setId;
                   fx2 = fx1 @ [Query ''flashcards'']
               in if error r2 \<noteq> None then load_failed h st1 fx2
                  else
                   (case data r2 of
                      None \<Rightarrow> load_failed h st1 fx2
                    | Some cardsData \<Rightarrow>
                       (if length cardsData = 0 then
                          (h, st1\<lparr>isLoading := False\<rparr>,
                           fx2 @ [ToastError ''This set has no flashcards'', Navigate ''/''])
                        else
                          (let cardsWithMetrics =
                                 map (\<lambda>(k, card).
                                        card\<lparr>confidence := Some 50, lastSeen := Some (clock k)\<rparr>)
                                     (enumerate 0 cardsData)
                           in (alloc base cardsWithMetrics h,
                               st1\<lparr>flashcards := [base..<base + length cardsWithMetrics],
                                    isLoading := False\<rparr>,
                               fx2)))))))"

text \<open>
  The conditions under which a load ends, read off the database rather than off the
  responses: the set has no row (and the lookup works), the set has a row and no card,
  a lookup that is made fails, or the set and its cards are there.
\<close>

datatype load_condition = Loaded | NotFound | EmptySet | FetchError

definition load_condition :: "Database \<Rightarrow> string \<Rightarrow> load_condition" where
  "load_condition db setId =
     (if sets_fault db \<noteq> None then FetchError
      else
       (case filter (\<lambda>s. fset_id s = setId) (flashcard_sets db) of
          [] \<Rightarrow> NotFound
        | [s] \<Rightarrow>
           (if cards_fault db \<noteq> None then FetchError
            else if filter (\<lambda>c. set_id c = setId) (flashcards_table db) = [] then EmptySet
            else Loaded)
        | _ \<Rightarrow> FetchError))"

subsection \<open>Typing-mode answers (lines 146 to 149 and 305 to 321)\<close>

text \<open>A literal of 8-bit characters as a JavaScript string, one code unit each.\<close>

definition utf16 :: "string \<Rightarrow> jsstring" where
  "utf16 s = map of_char s"

text \<open>
  The code units that \<^verbatim>\<open>String.prototype.trim\<close> strips: those of ECMAScript's
  \<^verbatim>\<open>WhiteSpace\<close> (tab, vertical tab, form feed, the byte order mark U+FEFF and the
  space separators of Unicode: U+0020, U+00A0, U+1680, U+2000 to U+200A, U+202F, U+205F,
  U+3000) and of its \<^verbatim>\<open>LineTerminator\<close> (line feed, carriage return, U+2028, U+2029).
  Each of them is a single code unit.
\<close>

definition js_whitespace :: "code_unit \<Rightarrow> bool" where
  "js_whitespace c =
     (c \<in> set [0x09, 0x0A, 0x0B, 0x0C, 0x0D, 0x20, 0xA0, 0x1680, 0x2028, 0x2029,
               0x202F, 0x205F, 0x3000, 0xFEFF]
      \<or> (0x2000 \<le> c \<and> c \<le> 0x200A))"

definition trim :: "jsstring \<Rightarrow> jsstring" where
  "trim s = rev (dropWhile js_whitespace (rev (dropWhile js_whitespace s)))"

text \<open>
  \<^verbatim>\<open>String.prototype.toLowerCase\<close> applies the case mapping of the Unicode standard.
  Its table is not part of the repository, so the mapping is a parameter,
  \<^verbatim>\<open>toLowerCase\<close>, of the functions that call it. On strings of the Basic Latin block
  (code units below 128) the mapping works unit by unit and is \<open>ascii_lower\<close>; the
  theorems that need a fact about the mapping assume that one.
\<close>

definition ascii_lower :: "code_unit \<Rightarrow> code_unit" where
  "ascii_lower c = (if 0x41 \<le> c \<and> c \<le> 0x5A then c + 0x20 else c)"

text \<open>The expression of lines 307, 312 and 320.\<close>

definition answerMatches :: "(jsstring \<Rightarrow> jsstring) \<Rightarrow> jsstring \<Rightarrow> jsstring \<Rightarrow> bool" where
  "answerMatches toLowerCase answer definition_str =
     (trim (toLowerCase answer) = trim (toLowerCase definition_str))"

definition handleSubmit :: "LearnMode \<Rightarrow> LearnMode" where
  "handleSubmit st = (if trim (userAnswer st) = [] then st else st\<lparr>showAnswer := True\<rparr>)"

text \<open>The \<^verbatim>\<open>Continue\<close> button of typing mode (lines 318 to 326).\<close>

definition handleContinue ::
  "(jsstring \<Rightarrow> jsstring) \<Rightarrow> LearnMode \<Rightarrow> store \<Rightarrow> int
     \<Rightarrow> failure + (store \<times> LearnMode \<times> LearnMode)" where
  "handleContinue toLowerCase st h now =
     (if currentIndex st < length (flashcards st) then
        handleAnswer st h
          (answerMatches toLowerCase (userAnswer st)
             (definition_text (h (flashcards st ! currentIndex st)))) now
      else Inl TypeError)"

subsection \<open>Hints (lines 163 to 167)\<close>

text \<open>
  \<^verbatim>\<open>split\<close> cuts the string at every character the predicate accepts; there is always
  at least one piece, and two neighbouring separators have an empty piece between them.
\<close>

fun split_when :: "(char \<Rightarrow> bool) \<Rightarrow> string \<Rightarrow> string list" where
  "split_when sep [] = [[]]"
| "split_when sep (c # cs) =
     (if sep c then [] # split_when sep cs
      else (case split_when sep cs of
              [] \<Rightarrow> [[c]]
            | w # ws \<Rightarrow> (c # w) # ws))"

fun join :: "string \<Rightarrow> string list \<Rightarrow> string" where
  "join sep [] = []"
| "join sep [w] = w"
| "join sep (w # v # ws) = w @ sep @ join sep (v # ws)"

text \<open>
  \<^verbatim>\<open>s[0]\<close> is \<^verbatim>\<open>undefined\<close> for the empty string. String concatenation prints it as
  \<^verbatim>\<open>undefined\<close>; \<^verbatim>\<open>Array.prototype.join\<close> prints it as the empty string.
\<close>

definition first_char :: "string \<Rightarrow> char option" where
  "first_char s = (case s of [] \<Rightarrow> None | c # _ \<Rightarrow> Some c)"

definition concat_str :: "char option \<Rightarrow> string \<Rightarrow> string" where
  "concat_str v s = (case v of None \<Rightarrow> ''undefined'' @ s | Some c \<Rightarrow> c # s)"

definition join_item :: "char option \<Rightarrow> string" where
  "join_item v = (case v of None \<Rightarrow> [] | Some c \<Rightarrow> [c])"

definition getHint :: "string \<Rightarrow> string" where
  "getHint text_str =
     (let words = split_when (\<lambda>c. c = CHR '' '') text_str in
      if length words = 1 then concat_str (first_char text_str) ''...''
      else join '' '' (map join_item (map first_char words)) @ ''...'')"

text \<open>
  The hint is stated on strings of 8-bit characters: it looks at a character only to
  compare it with the space. White space among those characters:
\<close>

definition is_whitespace :: "char \<Rightarrow> bool" where
  "is_whitespace c =
     (c \<in> set [CHR '' '', CHR 0x09, CHR 0x0A, CHR 0x0B, CHR 0x0C, CHR 0x0D])"

text \<open>
  The hint as the specification words it, for comparison: the words are what white
  space delimits, a single word gives its first character, several words give their
  first characters joined by one space each.
\<close>

definition whitespace_words :: "string \<Rightarrow> string list" where
  "whitespace_words s = filter (\<lambda>w. w \<noteq> []) (split_when is_whitespace s)"

definition hint_of_whitespace_words :: "string \<Rightarrow> string" where
  "hint_of_whitespace_words s =
     (let words = whitespace_words s in
      if length words = 1 then take 1 (concat words) @ ''...''
      else join '' '' (map (take 1) words) @ ''...'')"

subsection \<open>Example sessions\<close>

text \<open>Concrete cards, stores and renders, on which the theorems below are evaluated.\<close>

definition blank_card :: Flashcard where
  "blank_card =
     \<lparr>card_id = [], term_text = [], definition_text = [], image_url = None,
      set_id = [], position = 0, confidence = None, lastSeen = None\<rparr>"

definition store_of :: "int list \<Rightarrow> store" where
  "store_of cs =
     (\<lambda>a. if a < length cs then blank_card\<lparr>confidence := Some (cs ! a)\<rparr> else blank_card)"

definition ready :: "nat \<Rightarrow> nat \<Rightarrow> bool \<Rightarrow> LearnMode" where
  "ready n i spaced =
     \<lparr>setTitle = [], flashcards = [0..<n], currentIndex = i, userAnswer = [],
      showAnswer = False, correctCount = 0, streak = 0, typingMode = False,
      showSettings = False, showHints = True, showImages = True,
      spacedRepetition = spaced, isLoading = False\<rparr>"

text \<open>
  A database of two sets: \<^verbatim>\<open>s1\<close> has three cards, stored out of position order, and
  \<^verbatim>\<open>s2\<close> has none of its own apart from one card that must not show up in \<^verbatim>\<open>s1\<close>.
\<close>

definition example_db :: Database where
  "example_db =
     \<lparr>flashcard_sets = [\<lparr>fset_id = ''s1'', title = ''Biology''\<rparr>,
                        \<lparr>fset_id = ''s2'', title = ''Chemistry''\<rparr>,
                        \<lparr>fset_id = ''s3'', title = ''Empty''\<rparr>],
      flashcards_table =
        [blank_card\<lparr>card_id := ''c'', set_id := ''s1'', position := 2\<rparr>,
         blank_card\<lparr>card_id := ''x'', set_id := ''s2'', position := 0\<rparr>,
         blank_card\<lparr>card_id := ''a'', set_id := ''s1'', position := 0\<rparr>,
         blank_card\<lparr>card_id := ''b'', set_id := ''s1'', position := 1\<rparr>],
      sets_fault = None,
      cards_fault = None\<rparr>"

definition loading :: LearnMode where
  "loading = (ready 0 0 True)\<lparr>isLoading := True\<rparr>"

text \<open>
  Every pattern of outcomes of \<open>n\<close> comparisons of the shuffle, as a sequence of draws:
  \<open>1/4\<close> for a comparator that is not positive, \<open>3/4\<close> for one that is.
\<close>

fun coin_draws :: "nat \<Rightarrow> real list list" where
  "coin_draws 0 = [[]]"
| "coin_draws (Suc n) = concat (map (\<lambda>ds. [(1 / 4) # ds, (3 / 4) # ds]) (coin_draws n))"

definition draws :: "real list \<Rightarrow> nat \<Rightarrow> real" where
  "draws ds k = (if k < length ds then ds ! k else 1 / 4)"

definition shuffled_orders :: "LearnMode \<Rightarrow> store \<Rightarrow> nat \<Rightarrow> addr list list" where
  "shuffled_orders st h n =
     map (\<lambda>ds. flashcards (fst (snd (handleShuffle st h (draws ds))))) (coin_draws n)"

text \<open>
  A case mapping to try the typing mode with: the one of the Latin-1 block, where the
  capital letters are U+0041 to U+005A, U+00C0 to U+00D6 and U+00D8 to U+00DE and each
  small letter lies \<open>0x20\<close> above its capital, applied unit by unit.
\<close>

definition latin1_lower :: "code_unit \<Rightarrow> code_unit" where
  "latin1_lower c =
     (if (0x41 \<le> c \<and> c \<le> 0x5A) \<or> (0xC0 \<le> c \<and> c \<le> 0xD6) \<or> (0xD8 \<le> c \<and> c \<le> 0xDE)
      then c + 0x20 else c)"

text \<open>
  One answer cycle: the answer is scored and, a second later, the scheduled callback
  moves to the next card, nothing else happening in between. \<^verbatim>\<open>rnd\<close> is what
  \<^verbatim>\<open>Math.random\<close> returns to the callback.
\<close>

definition answerCycle ::
  "LearnMode \<Rightarrow> store \<Rightarrow> bool \<Rightarrow> int \<Rightarrow> real \<Rightarrow> failure + (store \<times> LearnMode)" where
  "answerCycle st h isCorrect now rnd =
     (case handleAnswer st h isCorrect now of
        Inl e \<Rightarrow> Inl e
      | Inr (h1, st1, closure) \<Rightarrow>
          (case timeoutCallback closure st1 h1 rnd of
             Inl e \<Rightarrow> Inl e
           | Inr st2 \<Rightarrow> Inr (h1, st2)))"

text \<open>A session: answer cycles one after the other, all at time 0.\<close>

fun play :: "LearnMode \<Rightarrow> store \<Rightarrow> (bool \<times> real) list \<Rightarrow> failure + (store \<times> LearnMode)" where
  "play st h [] = Inr (h, st)"
| "play st h ((isCorrect, rnd) # rest) =
     (case answerCycle st h isCorrect 0 rnd of
        Inl e \<Rightarrow> Inl e
      | Inr (h1, st1) \<Rightarrow> play st1 h1 rest)"

text \<open>The confidences of the cards of a session, in the order of its array.\<close>

definition confidences :: "failure + (store \<times> LearnMode) \<Rightarrow> failure + int option list" where
  "confidences r = map_sum id (\<lambda>(h, st). map (\<lambda>a. confidence (h a)) (flashcards st)) r"

section \<open>The confidence update\<close>

lemma js_or_Some_0: "js_or (Some 0) d = d"
  by (simp add: js_or_def)

lemma js_or_nonzero: "c \<noteq> 0 \<Longrightarrow> js_or (Some c) d = c"
  by (simp add: js_or_def)

lemma js_or_range:
  "0 \<le> c \<Longrightarrow> c \<le> 100 \<Longrightarrow> 0 < js_or (Some c) 50 \<and> js_or (Some c) 50 \<le> 100"
  by (simp add: js_or_def)

text \<open>
  Away from zero the update is the clamped step: a card whose confidence is \<open>c \<noteq> 0\<close>
  moves to \<open>min 100 (c + 20)\<close> on a correct answer, the streak growing by one, and to
  \<open>max 0 (c - 25)\<close> on an incorrect one, the streak falling to zero.
\<close>

lemma updateConfidence_nonzero:
  assumes "currentIndex st < length (flashcards st)"
    and "confidence (h (flashcards st ! currentIndex st)) = Some c" and "c \<noteq> 0"
  shows "updateConfidence st h True now =
           Inr (h(flashcards st ! currentIndex st :=
                    (h (flashcards st ! currentIndex st))
                      \<lparr>confidence := Some (min 100 (c + 20)), lastSeen := Some now\<rparr>),
                st\<lparr>streak := streak st + 1\<rparr>)"
    and "updateConfidence st h False now =
           Inr (h(flashcards st ! currentIndex st :=
                    (h (flashcards st ! currentIndex st))
                      \<lparr>confidence := Some (max 0 (c - 25)), lastSeen := Some now\<rparr>),
                st\<lparr>streak := 0\<rparr>)"
  using assms by (simp_all add: updateConfidence_def js_or_def Let_def)

text \<open>Whatever the card held before, what the update writes lies in \<open>[0, 100]\<close>.\<close>

lemma updateConfidence_range:
  assumes "updateConfidence st h correct now = Inr (h1, st1)"
    and "confidence (h (flashcards st ! currentIndex st)) = Some c" and "0 \<le> c" and "c \<le> 100"
  shows "\<exists>c1. confidence (h1 (flashcards st ! currentIndex st)) = Some c1 \<and> 0 \<le> c1 \<and> c1 \<le> 100"
  using assms
  by (auto simp add: updateConfidence_def js_or_def Let_def split: if_splits)

text \<open>
  Claim C1. The claim gives the update as \<open>min(100, c + 20)\<close> and \<open>max(0, c - 25)\<close> for
  every confidence \<open>c\<close> in \<open>[0, 100]\<close>. At \<open>c = 0\<close> the code does otherwise. A session of
  one card starts at confidence 50; two incorrect answers bring the card to 25 and then
  to 0. The third answer reads the 0 through \<^verbatim>\<open>current.confidence || 50\<close>, that is, as
  50: an incorrect answer stores 25 where the claim says 0, and a correct answer stores
  70 where the claim says 20.
\<close>

theorem updateConfidence_at_zero_confidence:
  "confidences (play (ready 1 0 True) (store_of [50]) [(False, 0), (False, 0)])
     = Inr [Some 0]
   \<and> confidences (play (ready 1 0 True) (store_of [50]) [(False, 0), (False, 0), (False, 0)])
     = Inr [Some 25]
   \<and> confidences (play (ready 1 0 True) (store_of [50]) [(False, 0), (False, 0), (True, 0)])
     = Inr [Some 70]"
  by (simp add: confidences_def answerCycle_def handleAnswer_def updateConfidence_def
      timeoutCallback_def getNextCard_def lowConfidencePool_def sortedByConfidence_def
      ready_def store_of_def blank_card_def js_or_def)

section \<open>Next-card selection\<close>

lemma floor_two_fifths: "nat \<lfloor>real n * 0.4\<rfloor> = 2 * n div 5"
proof -
  have "real n * 0.4 = real (2 * n) / real 5" by simp
  moreover have "\<lfloor>real (2 * n) / real 5\<rfloor> = int (2 * n div 5)"
    by (rule floor_divide_of_nat_eq)
  ultimately have "\<lfloor>real n * 0.4\<rfloor> = int (2 * n div 5)" by (simp only:)
  then show ?thesis by (simp only: nat_int)
qed

lemma length_sortedByConfidence [simp]: "length (sortedByConfidence fs h) = length fs"
  by (simp add: sortedByConfidence_def)

lemma length_lowConfidencePool:
  "length (lowConfidencePool fs h) = min (length fs) (max 1 (2 * length fs div 5))"
  unfolding lowConfidencePool_def floor_two_fifths by (simp add: min.commute)

lemma pool_nonempty: "fs \<noteq> [] \<Longrightarrow> 0 < length (lowConfidencePool fs h)"
  by (cases fs) (simp_all add: length_lowConfidencePool)

lemma random_index_in_range:
  assumes "0 \<le> rnd" "rnd < 1" "0 < n"
  shows "nat \<lfloor>rnd * real n\<rfloor> < n"
proof -
  have "rnd * real n < real n" using assms by simp
  then have "\<lfloor>rnd * real n\<rfloor> < int n" by (simp add: floor_less_iff)
  moreover have "0 \<le> \<lfloor>rnd * real n\<rfloor>" using assms by simp
  ultimately show ?thesis by linarith
qed

text \<open>With the toggle off the next index is the successor, wrapping around.\<close>

lemma getNextCard_sequential:
  "\<not> spacedRepetition st \<Longrightarrow> flashcards st \<noteq> [] \<Longrightarrow>
     getNextCard st h rnd = Inr ((currentIndex st + 1) mod length (flashcards st))"
  by (simp add: getNextCard_def)

text \<open>With the toggle on, every draw in \<open>[0, 1)\<close> selects an entry of the pool.\<close>

lemma getNextCard_weighted:
  assumes "spacedRepetition st" "flashcards st \<noteq> []" "0 \<le> rnd" "rnd < 1"
  shows "getNextCard st h rnd =
           Inr (r_idx (lowConfidencePool (flashcards st) h !
                  nat \<lfloor>rnd * real (length (lowConfidencePool (flashcards st) h))\<rfloor>))"
    and "nat \<lfloor>rnd * real (length (lowConfidencePool (flashcards st) h))\<rfloor>
           < length (lowConfidencePool (flashcards st) h)"
  using assms random_index_in_range [OF assms(3,4) pool_nonempty [OF assms(2)], of h]
  by (simp_all add: getNextCard_def Let_def)

lemma sorted_sortedByConfidence: "sorted (map r_confidence (sortedByConfidence fs h))"
  by (simp add: sortedByConfidence_def)

text \<open>
  The pool is a prefix of the ranking, so no card outside it ranks below a card in it.
  The rank is the confidence as \<^const>\<open>js_or\<close> reads it.
\<close>

lemma pool_is_lowest:
  assumes "i < length (lowConfidencePool fs h)"
    and "length (lowConfidencePool fs h) \<le> j" and "j < length fs"
  shows "r_confidence (sortedByConfidence fs h ! i) \<le> r_confidence (sortedByConfidence fs h ! j)"
proof -
  have "sorted (map r_confidence (sortedByConfidence fs h))"
    by (rule sorted_sortedByConfidence)
  moreover have "i \<le> j" using assms by simp
  moreover have "j < length (map r_confidence (sortedByConfidence fs h))"
    using assms by simp
  ultimately have "map r_confidence (sortedByConfidence fs h) ! i
      \<le> map r_confidence (sortedByConfidence fs h) ! j"
    by (rule sorted_nth_mono)
  then show ?thesis using assms by simp
qed

text \<open>The example of the specification: of the confidences 10, 20, 30, 80, 90 the pool
  holds the cards at the indices 0 and 1, and no draw selects another card.\<close>

lemma pool_of_example:
  "map r_idx (lowConfidencePool [0..<5] (store_of [10, 20, 30, 80, 90])) = [0, 1]"
  by (simp add: lowConfidencePool_def sortedByConfidence_def
      store_of_def blank_card_def js_or_def upt_rec enumerate_eq_zip)

lemma example_selects_10_or_20:
  assumes "0 \<le> rnd" "rnd < 1"
  shows "getNextCard (ready 5 i True) (store_of [10, 20, 30, 80, 90]) rnd \<in> {Inr 0, Inr 1}"
proof -
  let ?st = "ready 5 i True" and ?h = "store_of [10, 20, 30, 80, 90]"
  have fs: "flashcards ?st = [0..<5]" "spacedRepetition ?st" by (simp_all add: ready_def)
  have ne: "flashcards ?st \<noteq> []" by (simp add: fs upt_rec)
  have len: "length (lowConfidencePool (flashcards ?st) ?h) = 2"
    by (simp add: fs length_lowConfidencePool)
  from getNextCard_weighted [OF fs(2) ne assms, of ?h]
  have r: "getNextCard ?st ?h rnd
      = Inr (r_idx (lowConfidencePool (flashcards ?st) ?h ! nat \<lfloor>rnd * 2\<rfloor>))"
    and k: "nat \<lfloor>rnd * 2\<rfloor> < 2" by (simp_all add: len)
  from k have "nat \<lfloor>rnd * 2\<rfloor> = 0 \<or> nat \<lfloor>rnd * 2\<rfloor> = 1" by linarith
  moreover have m: "map r_idx (lowConfidencePool (flashcards ?st) ?h) = [0, 1]"
    unfolding fs by (rule pool_of_example)
  have "map r_idx (lowConfidencePool (flashcards ?st) ?h) ! 0 = 0"
    and "map r_idx (lowConfidencePool (flashcards ?st) ?h) ! 1 = 1"
    unfolding m by simp_all
  then have "r_idx (lowConfidencePool (flashcards ?st) ?h ! 0) = 0"
    and "r_idx (lowConfidencePool (flashcards ?st) ?h ! 1) = 1"
    using len by simp_all
  ultimately show ?thesis using r by auto
qed

section \<open>Answering: the update precedes the selection\<close>

lemma set_sortedByConfidence:
  "set (sortedByConfidence fs h) =
     (\<lambda>i. \<lparr>r_card = fs ! i, r_idx = i, r_confidence = js_or (confidence (h (fs ! i))) 50\<rparr>)
       ` {..<length fs}"
proof -
  have "enumerate 0 fs = map (\<lambda>i. (i, fs ! i)) [0..<length fs]"
    by (simp add: enumerate_eq_zip zip_eq_conv comp_def map_nth)
  then have "map (\<lambda>(idx, card). \<lparr>r_card = card, r_idx = idx,
                 r_confidence = js_or (confidence (h card)) 50\<rparr>) (enumerate 0 fs)
     = map (\<lambda>i. \<lparr>r_card = fs ! i, r_idx = i,
                 r_confidence = js_or (confidence (h (fs ! i))) 50\<rparr>) [0..<length fs]"
    by simp
  then show ?thesis
    by (simp add: sortedByConfidence_def atLeast0LessThan)
qed

text \<open>
  With a valid index \<^verbatim>\<open>handleAnswer\<close> returns: the store with the answered card
  updated, the new counters, and the render the scheduled callback has captured.
\<close>

lemma handleAnswer_returns:
  assumes "currentIndex st < length (flashcards st)"
  shows "handleAnswer st h isCorrect now =
     Inr (h(flashcards st ! currentIndex st :=
            (h (flashcards st ! currentIndex st))
              \<lparr>confidence := Some (if isCorrect
                   then min 100 (js_or (confidence (h (flashcards st ! currentIndex st))) 50 + 20)
                   else max 0 (js_or (confidence (h (flashcards st ! currentIndex st))) 50 - 25)),
               lastSeen := Some now\<rparr>),
          (if isCorrect then st\<lparr>streak := streak st + 1, correctCount := correctCount st + 1\<rparr>
           else st\<lparr>streak := 0\<rparr>),
          st)"
  using assms by (simp add: handleAnswer_def updateConfidence_def Let_def)

text \<open>Otherwise \<^verbatim>\<open>current\<close> is \<^verbatim>\<open>undefined\<close> and the handler throws.\<close>

lemma handleAnswer_throws:
  "\<not> currentIndex st < length (flashcards st) \<Longrightarrow> handleAnswer st h isCorrect now = Inl TypeError"
  by (simp add: handleAnswer_def updateConfidence_def Let_def)

text \<open>The selection reads three things of a render and nothing else.\<close>

lemma getNextCard_cong:
  "flashcards s2 = flashcards s1 \<Longrightarrow> currentIndex s2 = currentIndex s1 \<Longrightarrow>
   spacedRepetition s2 = spacedRepetition s1 \<Longrightarrow> getNextCard s2 h rnd = getNextCard s1 h rnd"
  by (simp add: getNextCard_def)

lemma map_update_distinct:
  assumes "distinct fs" "i < length fs"
  shows "map (g(fs ! i := v)) fs = (map g fs)[i := v]"
proof (rule nth_equalityI)
  show "length (map (g(fs ! i := v)) fs) = length ((map g fs)[i := v])" by simp
next
  fix j assume "j < length (map (g(fs ! i := v)) fs)"
  then have j: "j < length fs" by simp
  show "map (g(fs ! i := v)) fs ! j = (map g fs)[i := v] ! j"
  proof (cases "j = i")
    case True with j show ?thesis by simp
  next
    case False
    with assms j have "fs ! j \<noteq> fs ! i" by (simp add: nth_eq_iff_index_eq)
    with False j show ?thesis by simp
  qed
qed

text \<open>
  The order of the two events. \<^verbatim>\<open>handleAnswer\<close> applies the update before it
  schedules the selection, and the selection runs from a callback that captured the
  render of the answer. That render's array is the one from before the update, but it
  holds the same card objects as the array the update stored, and the update wrote
  into the object. So, for the store \<open>h1\<close> that the answer leaves behind: the answered
  card holds the updated value \<open>new\<close>; the confidences reachable from the callback's
  array are the earlier ones with the answered card's replaced by \<open>new\<close>; the ranking
  has an entry for the answered index, and every such entry is the answered card,
  ranked by what \<^verbatim>\<open>|| 50\<close> reads of \<open>new\<close>; and the callback computes what a
  selection from the updated state would.
\<close>

theorem selection_reads_updated_confidence:
  assumes idx: "currentIndex st < length (flashcards st)"
    and dist: "distinct (flashcards st)"
    and a: "a = flashcards st ! currentIndex st"
    and new: "new = (if isCorrect then min 100 (js_or (confidence (h a)) 50 + 20)
                     else max 0 (js_or (confidence (h a)) 50 - 25))"
    and ans: "handleAnswer st h isCorrect now = Inr (h1, st1, closure)"
  shows "confidence (h1 a) = Some new
    \<and> flashcards closure = flashcards st1
    \<and> map (\<lambda>c. confidence (h1 c)) (flashcards closure)
        = (map (\<lambda>c. confidence (h c)) (flashcards st))[currentIndex st := Some new]
    \<and> currentIndex st \<in> r_idx ` set (sortedByConfidence (flashcards closure) h1)
    \<and> (\<forall>e \<in> set (sortedByConfidence (flashcards closure) h1).
          r_idx e = currentIndex st \<longrightarrow> r_card e = a \<and> r_confidence e = js_or (Some new) 50)
    \<and> timeoutCallback closure st1 h1 rnd
        = map_sum id (\<lambda>n. st1\<lparr>currentIndex := n, showAnswer := False, userAnswer := []\<rparr>)
            (getNextCard st1 h1 rnd)"
proof -
  from handleAnswer_returns [OF idx, of h isCorrect now] ans a new
  have h1: "h1 = h(a := (h a)\<lparr>confidence := Some new, lastSeen := Some now\<rparr>)"
    and st1: "st1 = (if isCorrect
        then st\<lparr>streak := streak st + 1, correctCount := correctCount st + 1\<rparr>
        else st\<lparr>streak := 0\<rparr>)"
    and cl: "closure = st"
    by simp_all
  have c1: "confidence (h1 a) = Some new" by (simp add: h1)
  have c2: "flashcards closure = flashcards st1" by (simp add: cl st1)
  have "(\<lambda>c. confidence (h1 c)) = (\<lambda>c. confidence (h c))(flashcards st ! currentIndex st := Some new)"
    by (rule ext) (simp add: h1 a)
  then have c3: "map (\<lambda>c. confidence (h1 c)) (flashcards closure)
        = (map (\<lambda>c. confidence (h c)) (flashcards st))[currentIndex st := Some new]"
    using map_update_distinct [OF dist idx] by (simp add: cl)
  have c4: "currentIndex st \<in> r_idx ` set (sortedByConfidence (flashcards closure) h1)"
    using idx by (simp add: set_sortedByConfidence cl image_image)
  have c5: "\<forall>e \<in> set (sortedByConfidence (flashcards closure) h1).
          r_idx e = currentIndex st \<longrightarrow> r_card e = a \<and> r_confidence e = js_or (Some new) 50"
    using c1 by (auto simp add: set_sortedByConfidence cl a)
  have "getNextCard closure h1 rnd = getNextCard st1 h1 rnd"
    by (rule getNextCard_cong [symmetric]) (simp_all add: cl st1)
  then have c6: "timeoutCallback closure st1 h1 rnd
        = map_sum id (\<lambda>n. st1\<lparr>currentIndex := n, showAnswer := False, userAnswer := []\<rparr>)
            (getNextCard st1 h1 rnd)"
    by (simp add: timeoutCallback_def split: sum.splits)
  from c1 c2 c3 c4 c5 c6 show ?thesis by blast
qed


text \<open>
  Five cards at confidence 50, the first answered correctly. The callback ranks it at
  70 and, on the draw 0, moves to index 1; a ranking by the values from before the
  answer would have stayed at index 0.
\<close>

theorem selection_reads_updated_confidence_witness:
  "currentIndex (ready 5 0 True) < length (flashcards (ready 5 0 True))
   \<and> distinct (flashcards (ready 5 0 True))
   \<and> handleAnswer (ready 5 0 True) (store_of [50, 50, 50, 50, 50]) True 7
       = Inr ((store_of [50, 50, 50, 50, 50])
                 (0 := blank_card\<lparr>confidence := Some 70, lastSeen := Some 7\<rparr>),
              (ready 5 0 True)\<lparr>streak := 1, correctCount := 1\<rparr>,
              ready 5 0 True)
   \<and> map (\<lambda>c. confidence
               (((store_of [50, 50, 50, 50, 50])
                  (0 := blank_card\<lparr>confidence := Some 70, lastSeen := Some 7\<rparr>)) c))
         (flashcards (ready 5 0 True))
       = [Some 70, Some 50, Some 50, Some 50, Some 50]
   \<and> timeoutCallback (ready 5 0 True) ((ready 5 0 True)\<lparr>streak := 1, correctCount := 1\<rparr>)
         ((store_of [50, 50, 50, 50, 50])
            (0 := blank_card\<lparr>confidence := Some 70, lastSeen := Some 7\<rparr>)) 0
       = Inr ((ready 5 0 True)\<lparr>streak := 1, correctCount := 1, currentIndex := 1\<rparr>)
   \<and> getNextCard (ready 5 0 True) (store_of [50, 50, 50, 50, 50]) 0 = Inr 0"
  using selection_reads_updated_confidence
    [where st = "ready 5 0 True" and h = "store_of [50, 50, 50, 50, 50]" and a = 0
       and new = 70 and isCorrect = True and now = 7 and closure = "ready 5 0 True"
       and ?h1.0 = "(store_of [50, 50, 50, 50, 50])
                 (0 := blank_card\<lparr>confidence := Some 70, lastSeen := Some 7\<rparr>)"
       and ?st1.0 = "(ready 5 0 True)\<lparr>streak := 1, correctCount := 1\<rparr>" and rnd = 0]
  by (simp add: handleAnswer_def updateConfidence_def getNextCard_def timeoutCallback_def
      lowConfidencePool_def sortedByConfidence_def ready_def store_of_def blank_card_def
      js_or_def upt_rec enumerate_eq_zip)

text \<open>
  Where the updated value is not 0, the rank of the answered card is the updated value.
\<close>

lemma selection_ranks_updated_confidence_when_nonzero:
  assumes "currentIndex st < length (flashcards st)"
    and "distinct (flashcards st)"
    and "a = flashcards st ! currentIndex st"
    and "new = (if isCorrect then min 100 (js_or (confidence (h a)) 50 + 20)
                else max 0 (js_or (confidence (h a)) 50 - 25))"
    and "handleAnswer st h isCorrect now = Inr (h1, st1, closure)"
    and "new \<noteq> 0"
  shows "\<forall>e \<in> set (sortedByConfidence (flashcards closure) h1).
           r_idx e = currentIndex st \<longrightarrow> r_confidence e = new"
  using selection_reads_updated_confidence [OF assms(1-5), of 0] assms(6)
  by (simp add: js_or_def)

section \<open>A stored confidence of zero\<close>

lemma foldl_plus_sum_list:
  fixes f :: "'a \<Rightarrow> int"
  shows "foldl (\<lambda>sum c. sum + f c) acc xs = acc + sum_list (map f xs)"
  by (induction xs arbitrary: acc) (simp_all add: add.assoc)

text \<open>
  The ranking, the selection and the mean read a card's confidence only through
  \<^verbatim>\<open>|| 50\<close>: two stores that agree on that reading give the same results.
\<close>

lemma sortedByConfidence_cong:
  assumes "\<And>c. js_or (confidence (h2 c)) 50 = js_or (confidence (h1 c)) 50"
  shows "sortedByConfidence fs h2 = sortedByConfidence fs h1"
  using assms by (simp add: sortedByConfidence_def)

lemma getNextCard_store_cong:
  assumes "\<And>c. js_or (confidence (h2 c)) 50 = js_or (confidence (h1 c)) 50"
  shows "getNextCard st h2 rnd = getNextCard st h1 rnd"
  using sortedByConfidence_cong [of h2 h1, OF assms]
  by (simp add: getNextCard_def lowConfidencePool_def)

lemma avgConfidence_store_cong:
  assumes "\<And>c. js_or (confidence (h2 c)) 50 = js_or (confidence (h1 c)) 50"
  shows "avgConfidence st h2 = avgConfidence st h1"
  using assms by (simp add: avgConfidence_def)

text \<open>
  Claim C10. Let the card at address \<open>a\<close> hold the confidence 0, and let it be the
  current card of the render \<open>st\<close>. A correct answer stores 70 and an incorrect one 25.
  For every array \<open>fs\<close>, the ranking is the sorted list of the entries of \<open>fs\<close> in which
  the card has the confidence 50 wherever it stands: it is ordered as if it held 50.
  For every render \<open>st2\<close> with cards, the aggregate is the rounded mean of a sum to
  which the card contributes 50. The ranking, the selection and the aggregate are what
  they would be if the card held 50.
\<close>

theorem zero_confidence_read_as_default:
  assumes zero: "confidence (h a) = Some 0"
    and idx: "currentIndex st < length (flashcards st)"
    and cur: "flashcards st ! currentIndex st = a"
  shows "updateConfidence st h True now
           = Inr (h(a := (h a)\<lparr>confidence := Some 70, lastSeen := Some now\<rparr>),
                  st\<lparr>streak := streak st + 1\<rparr>)
    \<and> updateConfidence st h False now
           = Inr (h(a := (h a)\<lparr>confidence := Some 25, lastSeen := Some now\<rparr>),
                  st\<lparr>streak := 0\<rparr>)
    \<and> sortedByConfidence fs h = sortedByConfidence fs (h(a := (h a)\<lparr>confidence := Some 50\<rparr>))
    \<and> getNextCard st2 h rnd = getNextCard st2 (h(a := (h a)\<lparr>confidence := Some 50\<rparr>)) rnd
    \<and> avgConfidence st2 h = avgConfidence st2 (h(a := (h a)\<lparr>confidence := Some 50\<rparr>))
    \<and> (\<forall>i < length fs. fs ! i = a \<longrightarrow>
          \<lparr>r_card = a, r_idx = i, r_confidence = 50\<rparr> \<in> set (sortedByConfidence fs h))
    \<and> (\<forall>e \<in> set (sortedByConfidence fs h). r_card e = a \<longrightarrow> r_confidence e = 50)
    \<and> mset (sortedByConfidence fs h)
        = mset (map (\<lambda>i. \<lparr>r_card = fs ! i, r_idx = i,
                            r_confidence = (if fs ! i = a then 50
                                            else js_or (confidence (h (fs ! i))) 50)\<rparr>)
                  [0..<length fs])
    \<and> sorted (map r_confidence (sortedByConfidence fs h))
    \<and> (flashcards st2 \<noteq> [] \<longrightarrow>
          avgConfidence st2 h
            = Inr (js_round
                (real_of_int (sum_list (map (\<lambda>c. if c = a then 50 else js_or (confidence (h c)) 50)
                                           (flashcards st2)))
                   / real (length (flashcards st2)))))"
proof -
  have same: "\<And>c. js_or (confidence (h c)) 50
      = js_or (confidence ((h(a := (h a)\<lparr>confidence := Some 50\<rparr>)) c)) 50"
    using zero by (simp add: js_or_def)
  have read: "\<And>c. js_or (confidence (h c)) 50
      = (if c = a then 50 else js_or (confidence (h c)) 50)"
    using zero by (simp add: js_or_def)
  have u1: "updateConfidence st h True now
           = Inr (h(a := (h a)\<lparr>confidence := Some 70, lastSeen := Some now\<rparr>),
                  st\<lparr>streak := streak st + 1\<rparr>)"
    using zero idx cur by (simp add: updateConfidence_def Let_def js_or_def)
  have u2: "updateConfidence st h False now
           = Inr (h(a := (h a)\<lparr>confidence := Some 25, lastSeen := Some now\<rparr>),
                  st\<lparr>streak := 0\<rparr>)"
    using zero idx cur by (simp add: updateConfidence_def Let_def js_or_def)
  have r: "sortedByConfidence fs h = sortedByConfidence fs (h(a := (h a)\<lparr>confidence := Some 50\<rparr>))"
    by (rule sortedByConfidence_cong) (rule same)
  have g: "getNextCard st2 h rnd = getNextCard st2 (h(a := (h a)\<lparr>confidence := Some 50\<rparr>)) rnd"
    by (rule getNextCard_store_cong) (rule same)
  have m: "avgConfidence st2 h = avgConfidence st2 (h(a := (h a)\<lparr>confidence := Some 50\<rparr>))"
    by (rule avgConfidence_store_cong) (rule same)
  have e1: "\<forall>i < length fs. fs ! i = a \<longrightarrow>
          \<lparr>r_card = a, r_idx = i, r_confidence = 50\<rparr> \<in> set (sortedByConfidence fs h)"
    using zero by (auto simp add: set_sortedByConfidence js_or_def)
  have e2: "\<forall>e \<in> set (sortedByConfidence fs h). r_card e = a \<longrightarrow> r_confidence e = 50"
    using zero by (auto simp add: set_sortedByConfidence js_or_def)
  have en: "enumerate 0 fs = map (\<lambda>i. (i, fs ! i)) [0..<length fs]"
    by (simp add: enumerate_eq_zip zip_eq_conv comp_def map_nth)
  have "mset (sortedByConfidence fs h)
      = mset (map (\<lambda>i. \<lparr>r_card = fs ! i, r_idx = i,
                          r_confidence = js_or (confidence (h (fs ! i))) 50\<rparr>) [0..<length fs])"
    by (simp add: sortedByConfidence_def en comp_def)
  also have "(\<lambda>i. \<lparr>r_card = fs ! i, r_idx = i, r_confidence = js_or (confidence (h (fs ! i))) 50\<rparr>)
      = (\<lambda>i. \<lparr>r_card = fs ! i, r_idx = i,
                r_confidence = (if fs ! i = a then 50 else js_or (confidence (h (fs ! i))) 50)\<rparr>)"
    using read by (intro ext) simp
  finally have e3: "mset (sortedByConfidence fs h)
        = mset (map (\<lambda>i. \<lparr>r_card = fs ! i, r_idx = i,
                            r_confidence = (if fs ! i = a then 50
                                            else js_or (confidence (h (fs ! i))) 50)\<rparr>)
                  [0..<length fs])" .
  have e4: "sorted (map r_confidence (sortedByConfidence fs h))"
    by (rule sorted_sortedByConfidence)
  have "map (\<lambda>c. js_or (confidence (h c)) 50) (flashcards st2)
      = map (\<lambda>c. if c = a then 50 else js_or (confidence (h c)) 50) (flashcards st2)"
    using read by (intro map_cong refl)
  then have s: "sum_list (map (\<lambda>c. js_or (confidence (h c)) 50) (flashcards st2))
      = sum_list (map (\<lambda>c. if c = a then 50 else js_or (confidence (h c)) 50) (flashcards st2))"
    by (rule arg_cong)
  have e5: "flashcards st2 \<noteq> [] \<longrightarrow>
          avgConfidence st2 h
            = Inr (js_round
                (real_of_int (sum_list (map (\<lambda>c. if c = a then 50 else js_or (confidence (h c)) 50)
                                           (flashcards st2)))
                   / real (length (flashcards st2))))"
    unfolding avgConfidence_def foldl_plus_sum_list s by simp
  from u1 u2 r g m e1 e2 e3 e4 e5 show ?thesis by (intro conjI)
qed

text \<open>
  Two cards holding 0 and 30, the first being current: the answers store 70 and 25,
  the ranking puts the card holding 30 before the other one, which it ranks at 50, and
  the mean is 40.
\<close>

theorem zero_confidence_read_as_default_witness:
  "confidence (store_of [0, 30] 0) = Some 0
   \<and> currentIndex (ready 2 0 True) < length (flashcards (ready 2 0 True))
   \<and> flashcards (ready 2 0 True) ! currentIndex (ready 2 0 True) = 0
   \<and> updateConfidence (ready 2 0 True) (store_of [0, 30]) True 7
       = Inr ((store_of [0, 30])(0 := (store_of [0, 30] 0)\<lparr>confidence := Some 70, lastSeen := Some 7\<rparr>),
              (ready 2 0 True)\<lparr>streak := 1\<rparr>)
   \<and> updateConfidence (ready 2 0 True) (store_of [0, 30]) False 7
       = Inr ((store_of [0, 30])(0 := (store_of [0, 30] 0)\<lparr>confidence := Some 25, lastSeen := Some 7\<rparr>),
              (ready 2 0 True)\<lparr>streak := 0\<rparr>)
   \<and> sortedByConfidence [0, 1] (store_of [0, 30])
       = [\<lparr>r_card = 1, r_idx = 1, r_confidence = 30\<rparr>, \<lparr>r_card = 0, r_idx = 0, r_confidence = 50\<rparr>]
   \<and> getNextCard (ready 2 0 True) (store_of [0, 30]) 0 = Inr 1
   \<and> avgConfidence (ready 2 0 True) (store_of [0, 30]) = Inr 40"
  using zero_confidence_read_as_default
    [where h = "store_of [0, 30]" and a = 0 and st = "ready 2 0 True" and now = 7
       and ?st2.0 = "ready 2 0 True" and rnd = 0 and fs = "[0, 1]"]
  by (simp add: updateConfidence_def getNextCard_def avgConfidence_def js_round_def
      lowConfidencePool_def sortedByConfidence_def ready_def store_of_def blank_card_def
      js_or_def upt_rec enumerate_eq_zip)

section \<open>Aggregate confidence\<close>

lemma js_round_range: "0 \<le> x \<Longrightarrow> x \<le> 100 \<Longrightarrow> 0 \<le> js_round x \<and> js_round x \<le> 100"
  unfolding js_round_def by linarith

text \<open>
  Where no card holds 0 (and each holds a number), the aggregate is the mean of the
  stored confidences, rounded by \<^verbatim>\<open>Math.round\<close>.
\<close>

lemma avgConfidence_mean:
  assumes "fs = flashcards st" and "fs \<noteq> []"
    and "\<forall>a \<in> set fs. \<exists>c. confidence (h a) = Some c \<and> c \<noteq> 0"
  shows "avgConfidence st h
     = Inr (js_round (real_of_int (sum_list (map (\<lambda>a. the (confidence (h a))) fs))
                        / real (length fs)))"
proof -
  have "map (\<lambda>a. js_or (confidence (h a)) 50) fs = map (\<lambda>a. the (confidence (h a))) fs"
    using assms(3) by (auto simp add: js_or_def)
  then have "sum_list (map (\<lambda>a. js_or (confidence (h a)) 50) fs)
      = sum_list (map (\<lambda>a. the (confidence (h a))) fs)"
    by (simp only:)
  then show ?thesis
    using assms(1,2) by (simp add: avgConfidence_def foldl_plus_sum_list)
qed

lemma sum_list_bounds:
  fixes f :: "'a \<Rightarrow> int"
  assumes "\<forall>x \<in> set xs. 0 \<le> f x \<and> f x \<le> 100"
  shows "0 \<le> sum_list (map f xs) \<and> sum_list (map f xs) \<le> 100 * int (length xs)"
  using assms by (induction xs) auto

text \<open>
  For a non-empty array whose cards hold confidences in \<open>[0, 100]\<close> the aggregate is a
  number in \<open>[0, 100]\<close>.
\<close>

lemma avgConfidence_range:
  assumes "flashcards st \<noteq> []"
    and "\<forall>a \<in> set (flashcards st). \<exists>c. confidence (h a) = Some c \<and> 0 \<le> c \<and> c \<le> 100"
  shows "\<exists>m. avgConfidence st h = Inr m \<and> 0 \<le> m \<and> m \<le> 100"
proof -
  let ?fs = "flashcards st"
  let ?s = "sum_list (map (\<lambda>a. js_or (confidence (h a)) 50) ?fs)"
  have "\<forall>a \<in> set ?fs. 0 \<le> js_or (confidence (h a)) 50 \<and> js_or (confidence (h a)) 50 \<le> 100"
    using assms(2) by (auto simp add: js_or_def)
  then have b: "0 \<le> ?s \<and> ?s \<le> 100 * int (length ?fs)" by (rule sum_list_bounds)
  have n: "0 < real (length ?fs)" using assms(1) by simp
  have "0 \<le> real_of_int ?s / real (length ?fs)" using b by simp
  moreover have "real_of_int ?s \<le> 100 * real (length ?fs)"
    using b by (metis of_int_le_iff of_int_mult of_int_numeral of_int_of_nat_eq)
  then have "real_of_int ?s / real (length ?fs) \<le> 100"
    using n by (simp add: divide_le_eq)
  ultimately have "0 \<le> js_round (real_of_int ?s / real (length ?fs))
      \<and> js_round (real_of_int ?s / real (length ?fs)) \<le> 100"
    by (rule js_round_range)
  then show ?thesis using assms(1) by (simp add: avgConfidence_def foldl_plus_sum_list)
qed

section \<open>Sessions that reach a confidence of zero\<close>

text \<open>
  One answer cycle with the toggle off, on an array that holds the addresses \<open>0\<close> to
  \<open>n - 1\<close> in order, the answered card holding a confidence other than 0: the cycle
  returns, the answered card takes the clamped step, no other card changes, and the
  index moves on by one.
\<close>

lemma answerCycle_sequential:
  assumes fs: "flashcards st = [0..<n]" and cur: "currentIndex st = i" and idx: "i < n"
    and seq: "\<not> spacedRepetition st" and conf: "confidence (h i) = Some c" and nz: "c \<noteq> 0"
  shows "\<exists>h1 st1. answerCycle st h b now rnd = Inr (h1, st1)
    \<and> flashcards st1 = [0..<n] \<and> currentIndex st1 = (i + 1) mod n
    \<and> \<not> spacedRepetition st1
    \<and> confidence (h1 i) = Some (if b then min 100 (c + 20) else max 0 (c - 25))
    \<and> (\<forall>j. j \<noteq> i \<longrightarrow> h1 j = h j)"
proof -
  have a: "flashcards st ! currentIndex st = i" using fs cur idx by simp
  have len: "currentIndex st < length (flashcards st)" using fs cur idx by simp
  have ne: "length (flashcards st) \<noteq> 0" using fs idx by simp
  let ?new = "if b then min 100 (c + 20) else max 0 (c - 25)"
  let ?h1 = "h(i := (h i)\<lparr>confidence := Some ?new, lastSeen := Some now\<rparr>)"
  let ?st1 = "if b then st\<lparr>streak := streak st + 1, correctCount := correctCount st + 1\<rparr>
              else st\<lparr>streak := 0\<rparr>"
  let ?st2 = "?st1\<lparr>currentIndex := (i + 1) mod n, showAnswer := False, userAnswer := []\<rparr>"
  have ha: "handleAnswer st h b now = Inr (?h1, ?st1, st)"
    using handleAnswer_returns [OF len, of h b now] conf nz by (simp add: a js_or_def)
  have nx: "getNextCard st ?h1 rnd = Inr ((i + 1) mod n)"
    using seq ne fs cur by (simp add: getNextCard_def)
  have 1: "answerCycle st h b now rnd = Inr (?h1, ?st2)"
    unfolding answerCycle_def ha by (simp add: timeoutCallback_def nx)
  have 2: "flashcards ?st2 = [0..<n]" using fs by simp
  have 3: "currentIndex ?st2 = (i + 1) mod n" by simp
  have 4: "\<not> spacedRepetition ?st2" using seq by simp
  have 5: "confidence (?h1 i) = Some ?new" by simp
  have 6: "\<forall>j. j \<noteq> i \<longrightarrow> ?h1 j = h j" by simp
  from 1 2 3 4 5 6 show ?thesis by blast
qed

text \<open>
  Claim C2. The claim has the weighted policy rank the cards by ascending confidence
  and draw from the \<open>max(1, floor(0.4 n))\<close> cards of lowest confidence. The code ranks
  by \<^verbatim>\<open>card.confidence || 50\<close>, so a card whose confidence is 0 is ranked as if it held
  50. Take a session of three cards, the toggle off, and the answers incorrect,
  incorrect, correct, incorrect: the cards then hold 0, 25 and 70. With the toggle
  switched on, the pool has one card, and the card of lowest confidence is the one at
  index 0; the pool the code forms holds the card at index 1 (confidence 25), and that
  is the card the selection returns.
\<close>

theorem getNextCard_passes_over_zero_confidence:
  "confidences (play (ready 3 0 False) (store_of [50, 50, 50])
       [(False, 0), (False, 0), (True, 0), (False, 0)])
     = Inr [Some 0, Some 25, Some 70]
   \<and> (case play (ready 3 0 False) (store_of [50, 50, 50])
              [(False, 0), (False, 0), (True, 0), (False, 0)] of
         Inl e \<Rightarrow> Inl e
       | Inr (h, st) \<Rightarrow> Inr (map r_idx (lowConfidencePool (flashcards st) h))) = Inr [1]
   \<and> (case play (ready 3 0 False) (store_of [50, 50, 50])
              [(False, 0), (False, 0), (True, 0), (False, 0)] of
         Inl e \<Rightarrow> Inl e
       | Inr (h, st) \<Rightarrow> getNextCard (st\<lparr>spacedRepetition := True\<rparr>) h (1 / 2)) = Inr 1"
proof -
  let ?st0 = "ready 3 0 False" and ?h0 = "store_of [50, 50, 50]"
  have st0: "flashcards ?st0 = [0..<3]" "currentIndex ?st0 = 0" "\<not> spacedRepetition ?st0"
    by (simp_all add: ready_def)
  have h0: "confidence (?h0 0) = Some 50" "confidence (?h0 1) = Some 50"
    "confidence (?h0 2) = Some 50"
    by (simp_all add: store_of_def blank_card_def)
  obtain h1 st1 where c1: "answerCycle ?st0 ?h0 False 0 0 = Inr (h1, st1)"
    and st1: "flashcards st1 = [0..<3]" "currentIndex st1 = 1" "\<not> spacedRepetition st1"
    and h1: "confidence (h1 0) = Some 25" "\<forall>j. j \<noteq> 0 \<longrightarrow> h1 j = ?h0 j"
    using answerCycle_sequential [where st = "?st0" and h = "?h0" and b = False and now = 0 and rnd = 0
        and n = 3 and i = 0 and c = 50] st0 h0(1)
    by auto
  have k1: "confidence (h1 1) = Some 50" "confidence (h1 2) = Some 50"
    using h1(2) h0 by simp_all
  obtain h2 st2 where c2: "answerCycle st1 h1 False 0 0 = Inr (h2, st2)"
    and st2: "flashcards st2 = [0..<3]" "currentIndex st2 = 2" "\<not> spacedRepetition st2"
    and h2: "confidence (h2 1) = Some 25" "\<forall>j. j \<noteq> 1 \<longrightarrow> h2 j = h1 j"
    using answerCycle_sequential [where st = "st1" and h = "h1" and b = False and now = 0 and rnd = 0
        and n = 3 and i = 1 and c = 50] st1 k1(1)
    by auto
  have k2: "confidence (h2 0) = Some 25" "confidence (h2 2) = Some 50"
    using h2(2) h1(1) k1 by simp_all
  obtain h3 st3 where c3: "answerCycle st2 h2 True 0 0 = Inr (h3, st3)"
    and st3: "flashcards st3 = [0..<3]" "currentIndex st3 = 0" "\<not> spacedRepetition st3"
    and h3: "confidence (h3 2) = Some 70" "\<forall>j. j \<noteq> 2 \<longrightarrow> h3 j = h2 j"
    using answerCycle_sequential [where st = "st2" and h = "h2" and b = True and now = 0 and rnd = 0
        and n = 3 and i = 2 and c = 50] st2 k2(2)
    by auto
  have k3: "confidence (h3 0) = Some 25" "confidence (h3 1) = Some 25"
    using h3(2) h2(1) k2 by simp_all
  obtain h4 st4 where c4: "answerCycle st3 h3 False 0 0 = Inr (h4, st4)"
    and st4: "flashcards st4 = [0..<3]" "currentIndex st4 = 1" "\<not> spacedRepetition st4"
    and h4: "confidence (h4 0) = Some 0" "\<forall>j. j \<noteq> 0 \<longrightarrow> h4 j = h3 j"
    using answerCycle_sequential [where st = "st3" and h = "h3" and b = False and now = 0 and rnd = 0
        and n = 3 and i = 0 and c = 25] st3 k3(1)
    by auto
  have e4: "h4 1 = h3 1" "h4 2 = h3 2" using h4(2) by simp_all
  have cf: "confidence (h4 0) = Some 0" "confidence (h4 1) = Some 25"
    "confidence (h4 2) = Some 70"
    by (rule h4(1), simp only: e4 k3(2), simp only: e4 h3(1))
  have p: "play ?st0 ?h0 [(False, 0), (False, 0), (True, 0), (False, 0)] = Inr (h4, st4)"
    by (simp add: c1 c2 c3 c4)
  have fs: "flashcards st4 = [0, 1, 2]" using st4 by (simp add: eval_nat_numeral)
  note cf = cf [unfolded One_nat_def]
  have a: "confidences (Inr (h4, st4)) = Inr [Some 0, Some 25, Some 70]"
    by (simp add: confidences_def fs cf)
  have b: "map r_idx (lowConfidencePool (flashcards st4) h4) = [1]"
    by (simp add: lowConfidencePool_def sortedByConfidence_def fs cf js_or_def)
  have c: "getNextCard (st4\<lparr>spacedRepetition := True\<rparr>) h4 (1 / 2) = Inr 1"
    by (simp add: getNextCard_def lowConfidencePool_def sortedByConfidence_def fs cf js_or_def)
  show ?thesis unfolding p using a b c by simp
qed

text \<open>
  Claim C8. The claim has the aggregate equal the rounded arithmetic mean of the cards'
  confidences. The code sums \<^verbatim>\<open>c.confidence || 50\<close>, so a card holding 0 counts as 50.
  Take a session of two cards, the toggle off, and the answers incorrect, correct,
  incorrect: the cards hold 0 and 70, whose mean is 35, and the aggregate is 60.
\<close>

theorem avgConfidence_counts_zero_as_50:
  "confidences (play (ready 2 0 False) (store_of [50, 50]) [(False, 0), (True, 0), (False, 0)])
     = Inr [Some 0, Some 70]
   \<and> (case play (ready 2 0 False) (store_of [50, 50]) [(False, 0), (True, 0), (False, 0)] of
         Inl e \<Rightarrow> Inl e
       | Inr (h, st) \<Rightarrow> avgConfidence st h) = Inr 60
   \<and> js_round (real_of_int (sum_list [0, 70]) / 2) = 35"
proof -
  let ?st0 = "ready 2 0 False" and ?h0 = "store_of [50, 50]"
  have st0: "flashcards ?st0 = [0..<2]" "currentIndex ?st0 = 0" "\<not> spacedRepetition ?st0"
    by (simp_all add: ready_def)
  have h0: "confidence (?h0 0) = Some 50" "confidence (?h0 1) = Some 50"
    by (simp_all add: store_of_def blank_card_def)
  obtain h1 st1 where c1: "answerCycle ?st0 ?h0 False 0 0 = Inr (h1, st1)"
    and st1: "flashcards st1 = [0..<2]" "currentIndex st1 = 1" "\<not> spacedRepetition st1"
    and h1: "confidence (h1 0) = Some 25" "\<forall>j. j \<noteq> 0 \<longrightarrow> h1 j = ?h0 j"
    using answerCycle_sequential [where st = "?st0" and h = "?h0" and b = False and now = 0 and rnd = 0
        and n = 2 and i = 0 and c = 50] st0 h0(1)
    by auto
  have k1: "confidence (h1 1) = Some 50" using h1(2) h0 by simp
  obtain h2 st2 where c2: "answerCycle st1 h1 True 0 0 = Inr (h2, st2)"
    and st2: "flashcards st2 = [0..<2]" "currentIndex st2 = 0" "\<not> spacedRepetition st2"
    and h2: "confidence (h2 1) = Some 70" "\<forall>j. j \<noteq> 1 \<longrightarrow> h2 j = h1 j"
    using answerCycle_sequential [where st = "st1" and h = "h1" and b = True and now = 0 and rnd = 0
        and n = 2 and i = 1 and c = 50] st1 k1
    by auto
  have k2: "confidence (h2 0) = Some 25" using h2(2) h1(1) by simp
  obtain h3 st3 where c3: "answerCycle st2 h2 False 0 0 = Inr (h3, st3)"
    and st3: "flashcards st3 = [0..<2]" "currentIndex st3 = 1" "\<not> spacedRepetition st3"
    and h3: "confidence (h3 0) = Some 0" "\<forall>j. j \<noteq> 0 \<longrightarrow> h3 j = h2 j"
    using answerCycle_sequential [where st = "st2" and h = "h2" and b = False and now = 0 and rnd = 0
        and n = 2 and i = 0 and c = 25] st2 k2
    by auto
  have e3: "h3 1 = h2 1" using h3(2) by simp
  have cf: "confidence (h3 0) = Some 0" "confidence (h3 1) = Some 70"
    by (rule h3(1), simp only: e3 h2(1))
  have p: "play ?st0 ?h0 [(False, 0), (True, 0), (False, 0)] = Inr (h3, st3)"
    by (simp add: c1 c2 c3)
  have fs: "flashcards st3 = [0, 1]" using st3 by (simp add: eval_nat_numeral)
  note cf = cf [unfolded One_nat_def]
  have a: "confidences (Inr (h3, st3)) = Inr [Some 0, Some 70]"
    by (simp add: confidences_def fs cf)
  have b: "avgConfidence st3 h3 = Inr 60"
    by (simp add: avgConfidence_def js_round_def fs cf js_or_def)
  have c: "js_round (real_of_int (sum_list [0, 70]) / 2) = 35"
    by (simp add: js_round_def)
  show ?thesis unfolding p using a b c by simp
qed

text \<open>
  Claim C3. The claim has the selection that follows an answer rank the answered card
  by its confidence after the update. The selection does read the card after the
  update, but through \<^verbatim>\<open>card.confidence || 50\<close>, so an updated confidence of 0 is
  ranked as 50. Take a session of three cards, the toggle off, and the answers
  incorrect, incorrect, correct: the cards hold 25, 25 and 70 and the first is current.
  With the toggle switched on, it is answered incorrectly: it now holds 0, the lowest
  confidence of the three. The ranking of the callback has it at 50, behind the card
  holding 25, and the callback moves to that card, at index 1.
\<close>

theorem selection_ranks_zero_confidence_as_50:
  "confidences (play (ready 3 0 False) (store_of [50, 50, 50])
       [(False, 0), (False, 0), (True, 0)])
     = Inr [Some 25, Some 25, Some 70]
   \<and> (case play (ready 3 0 False) (store_of [50, 50, 50])
              [(False, 0), (False, 0), (True, 0)] of
         Inl e \<Rightarrow> Inl e
       | Inr (h, st) \<Rightarrow>
          (case handleAnswer (st\<lparr>spacedRepetition := True\<rparr>) h False 0 of
             Inl e \<Rightarrow> Inl e
           | Inr (h1, st1, closure) \<Rightarrow>
               Inr (map (\<lambda>a. confidence (h1 a)) (flashcards closure),
                    map (\<lambda>e. (r_idx e, r_confidence e))
                      (sortedByConfidence (flashcards closure) h1),
                    map_sum id currentIndex (timeoutCallback closure st1 h1 (1 / 2)))))
     = Inr ([Some 0, Some 25, Some 70], [(1, 25), (0, 50), (2, 70)], Inr 1)"
proof -
  let ?st0 = "ready 3 0 False" and ?h0 = "store_of [50, 50, 50]"
  have st0: "flashcards ?st0 = [0..<3]" "currentIndex ?st0 = 0" "\<not> spacedRepetition ?st0"
    by (simp_all add: ready_def)
  have h0: "confidence (?h0 0) = Some 50" "confidence (?h0 1) = Some 50"
    "confidence (?h0 2) = Some 50"
    by (simp_all add: store_of_def blank_card_def)
  obtain h1 st1 where c1: "answerCycle ?st0 ?h0 False 0 0 = Inr (h1, st1)"
    and st1: "flashcards st1 = [0..<3]" "currentIndex st1 = 1" "\<not> spacedRepetition st1"
    and h1: "confidence (h1 0) = Some 25" "\<forall>j. j \<noteq> 0 \<longrightarrow> h1 j = ?h0 j"
    using answerCycle_sequential [where st = "?st0" and h = "?h0" and b = False and now = 0 and rnd = 0
        and n = 3 and i = 0 and c = 50] st0 h0(1)
    by auto
  have k1: "confidence (h1 1) = Some 50" "confidence (h1 2) = Some 50"
    using h1(2) h0 by simp_all
  obtain h2 st2 where c2: "answerCycle st1 h1 False 0 0 = Inr (h2, st2)"
    and st2: "flashcards st2 = [0..<3]" "currentIndex st2 = 2" "\<not> spacedRepetition st2"
    and h2: "confidence (h2 1) = Some 25" "\<forall>j. j \<noteq> 1 \<longrightarrow> h2 j = h1 j"
    using answerCycle_sequential [where st = "st1" and h = "h1" and b = False and now = 0 and rnd = 0
        and n = 3 and i = 1 and c = 50] st1 k1(1)
    by auto
  have k2: "confidence (h2 0) = Some 25" "confidence (h2 2) = Some 50"
    using h2(2) h1(1) k1 by simp_all
  obtain h3 st3 where c3: "answerCycle st2 h2 True 0 0 = Inr (h3, st3)"
    and st3: "flashcards st3 = [0..<3]" "currentIndex st3 = 0" "\<not> spacedRepetition st3"
    and h3: "confidence (h3 2) = Some 70" "\<forall>j. j \<noteq> 2 \<longrightarrow> h3 j = h2 j"
    using answerCycle_sequential [where st = "st2" and h = "h2" and b = True and now = 0 and rnd = 0
        and n = 3 and i = 2 and c = 50] st2 k2(2)
    by auto
  have e3: "h3 0 = h2 0" "h3 1 = h2 1" using h3(2) by simp_all
  have k3: "confidence (h3 0) = Some 25" "confidence (h3 (Suc 0)) = Some 25"
    "confidence (h3 2) = Some 70"
    by (simp only: e3 k2(1), simp only: e3 h2(1) One_nat_def [symmetric], rule h3(1))
  have p: "play ?st0 ?h0 [(False, 0), (False, 0), (True, 0)] = Inr (h3, st3)"
    by (simp add: c1 c2 c3)
  have fs: "flashcards st3 = [0, 1, 2]" using st3 by (simp add: eval_nat_numeral)
  have a: "confidences (Inr (h3, st3)) = Inr [Some 25, Some 25, Some 70]"
    by (simp add: confidences_def fs k3)
  let ?st = "st3\<lparr>spacedRepetition := True\<rparr>"
  let ?h4 = "h3(0 := (h3 0)\<lparr>confidence := Some 0, lastSeen := Some 0\<rparr>)"
  have len: "currentIndex ?st < length (flashcards ?st)" by (simp add: fs st3)
  have ha: "handleAnswer ?st h3 False 0 = Inr (?h4, ?st\<lparr>streak := 0\<rparr>, ?st)"
    using handleAnswer_returns [OF len, of h3 False 0]
    by (simp add: fs st3 k3 js_or_def)
  have k4: "confidence (?h4 0) = Some 0" "confidence (?h4 (Suc 0)) = Some 25"
    "confidence (?h4 2) = Some 70"
    using k3 by simp_all
  have b1: "map (\<lambda>a. confidence (?h4 a)) (flashcards ?st) = [Some 0, Some 25, Some 70]"
    using k3 by (simp add: fs)
  have b2: "map (\<lambda>e. (r_idx e, r_confidence e)) (sortedByConfidence (flashcards ?st) ?h4)
      = [(1, 25), (0, 50), (2, 70)]"
    using k3 by (simp add: sortedByConfidence_def fs js_or_def)
  have b3: "timeoutCallback ?st (?st\<lparr>streak := 0\<rparr>) ?h4 (1 / 2)
      = Inr (?st\<lparr>streak := 0, currentIndex := 1, showAnswer := False, userAnswer := []\<rparr>)"
    using k3
    by (simp add: timeoutCallback_def getNextCard_def lowConfidencePool_def
        sortedByConfidence_def fs js_or_def)
  have q: "(case handleAnswer ?st h3 False 0 of
         Inl e \<Rightarrow> Inl e
       | Inr (h1, st1, closure) \<Rightarrow>
           Inr (map (\<lambda>a. confidence (h1 a)) (flashcards closure),
                map (\<lambda>e. (r_idx e, r_confidence e))
                  (sortedByConfidence (flashcards closure) h1),
                map_sum id currentIndex (timeoutCallback closure st1 h1 (1 / 2))))
     = Inr ([Some 0, Some 25, Some 70], [(1, 25), (0, 50), (2, 70)], Inr 1)"
    by (simp only: ha sum.case prod.case b1 b2 b3) simp
  show ?thesis
    unfolding p by (simp only: sum.case prod.case q a)
qed

section \<open>Shuffling\<close>

text \<open>Inserting and sorting by random comparisons only rearrange the list.\<close>

lemma mset_insert_random:
  "insert_random rand k x ys = (zs, k') \<Longrightarrow> mset zs = add_mset x (mset ys)"
proof (induction ys arbitrary: k zs k')
  case Nil
  then show ?case by auto
next
  case (Cons y ys)
  show ?case
  proof (cases "rand k - 0.5 > 0")
    case True
    obtain zs1 k1 where rec: "insert_random rand (Suc k) x ys = (zs1, k1)"
      by (cases "insert_random rand (Suc k) x ys")
    with True Cons.prems have "zs = y # zs1" by simp
    with Cons.IH [OF rec] show ?thesis by simp
  next
    case False
    with Cons.prems show ?thesis by auto
  qed
qed

lemma mset_sort_random: "mset (sort_random rand k s xs) = mset s + mset xs"
proof (induction xs arbitrary: k s)
  case Nil
  show ?case by simp
next
  case (Cons x xs)
  obtain s1 k1 where ins: "insert_random rand k x s = (s1, k1)"
    by (cases "insert_random rand k x s")
  from mset_insert_random [OF ins] have "mset s1 = add_mset x (mset s)" .
  with Cons.IH [of k1 s1] ins show ?case by simp
qed

text \<open>
  The order that results depends on the draws only through the sign of each
  comparator result, that is, through whether the draw exceeds \<open>1/2\<close>.
\<close>

lemma insert_random_signs:
  "insert_random (\<lambda>j. if rand j > 1 / 2 then 3 / 4 else 1 / 4) k x ys = insert_random rand k x ys"
  by (induction ys arbitrary: k) auto

lemma sort_random_signs:
  "sort_random (\<lambda>j. if rand j > 1 / 2 then 3 / 4 else 1 / 4) k s xs = sort_random rand k s xs"
proof (induction xs arbitrary: k s)
  case Nil
  show ?case by simp
next
  case (Cons x xs)
  show ?case
    unfolding sort_random.simps insert_random_signs
    using Cons.IH by (simp split: prod.splits)
qed

text \<open>
  Claim C9, as amended. Whatever \<^verbatim>\<open>Math.random\<close> returns, the shuffle leaves the store
  as it is (so every card keeps its confidence), stores an array that is a permutation
  of the old one (the same cards, none added or removed, the same number of them, and
  distinct if they were), and resets \<^verbatim>\<open>currentIndex\<close> to 0.
\<close>

theorem handleShuffle_permutes:
  "(case handleShuffle st h rand of
      (h1, st1, fx) \<Rightarrow>
        h1 = h
        \<and> mset (flashcards st1) = mset (flashcards st)
        \<and> length (flashcards st1) = length (flashcards st)
        \<and> set (flashcards st1) = set (flashcards st)
        \<and> distinct (flashcards st1) = distinct (flashcards st)
        \<and> currentIndex st1 = 0
        \<and> map (\<lambda>a. confidence (h1 a)) (flashcards st) = map (\<lambda>a. confidence (h a)) (flashcards st))"
proof -
  have m: "mset (sort_random rand 0 [] (flashcards st)) = mset (flashcards st)"
    by (simp add: mset_sort_random)
  from m have "length (sort_random rand 0 [] (flashcards st)) = length (flashcards st)"
    by (rule mset_eq_length)
  moreover from m have "set (sort_random rand 0 [] (flashcards st)) = set (flashcards st)"
    by (rule mset_eq_setD)
  moreover from m have "distinct (sort_random rand 0 [] (flashcards st)) = distinct (flashcards st)"
    by (rule mset_eq_imp_distinct_iff)
  ultimately show ?thesis using m by (simp add: handleShuffle_def)
qed

text \<open>
  There are \<open>2^m\<close> patterns of \<open>m\<close> comparison outcomes, and \<open>2^m\<close> is not a
  multiple of 3. So whatever a sorting procedure \<open>f\<close> makes of the outcomes of \<open>m\<close>
  fair comparisons, no result \<open>p\<close> comes from exactly a sixth of the patterns: three
  cards cannot be put in each of their six orders with probability \<open>1/6\<close>.
\<close>

lemma length_coin_draws: "length (coin_draws n) = 2 ^ n"
  by (induction n) (simp_all add: length_concat comp_def sum_list_triv)

lemma power_two_mod_three: "(2 :: nat) ^ m mod 3 = 1 \<or> (2 :: nat) ^ m mod 3 = 2"
proof (induction m)
  case 0
  show ?case by simp
next
  case (Suc m)
  define x where "x = (2 :: nat) ^ m"
  from Suc have "x mod 3 = 1 \<or> x mod 3 = 2" by (simp add: x_def)
  then have "(2 * x) mod 3 = 1 \<or> (2 * x) mod 3 = 2" by presburger
  then show ?case by (simp add: x_def)
qed

lemma no_order_has_probability_one_sixth:
  "6 * count_list (map f (coin_draws m)) p \<noteq> length (coin_draws m)"
proof
  assume "6 * count_list (map f (coin_draws m)) p = length (coin_draws m)"
  then have "(2 :: nat) ^ m = 3 * (2 * count_list (map f (coin_draws m)) p)"
    by (simp add: length_coin_draws)
  then have "(2 :: nat) ^ m mod 3 = 0" by simp
  with power_two_mod_three [of m] show False by simp
qed

text \<open>
  Claim C9 as stated has the new order uniformly distributed. Sorting with a comparator
  that flips a coin does not give that. For three cards the insertion sort makes at
  most three comparisons, and by \<open>sort_random_signs\<close> the order depends only on their
  three signs. Of the eight sign patterns, each as likely as another when the draws are
  independent and uniform, two leave the cards in the order 0, 1, 2 and one gives the
  order 0, 2, 1: the probabilities are \<open>1/4\<close> and \<open>1/8\<close> where uniformity asks for \<open>1/6\<close>
  each. The choice of insertion sort does not matter for that, by
  \<open>no_order_has_probability_one_sixth\<close>.
\<close>

theorem handleShuffle_not_uniform:
  "length (shuffled_orders (ready 3 0 True) (store_of [50, 50, 50]) 3) = 8
   \<and> count_list (shuffled_orders (ready 3 0 True) (store_of [50, 50, 50]) 3) [0, 1, 2] = 2
   \<and> count_list (shuffled_orders (ready 3 0 True) (store_of [50, 50, 50]) 3) [0, 2, 1] = 1"
  by (simp add: shuffled_orders_def handleShuffle_def draws_def ready_def eval_nat_numeral upt_rec)


section \<open>Session initialisation\<close>

lemma nth_cardsWithMetrics:
  assumes "k < length rows"
  shows "map (\<lambda>(k, card). card\<lparr>confidence := Some 50, lastSeen := Some (clock k)\<rparr>)
             (enumerate 0 rows) ! k
         = (rows ! k)\<lparr>confidence := Some 50, lastSeen := Some (clock k)\<rparr>"
  using assms by (simp add: nth_enumerate_eq)

lemma alloc_nth:
  "k < length cs \<Longrightarrow> alloc base cs h ([base..<base + length cs] ! k) = cs ! k"
  by (simp add: alloc_def)

lemma alloc_outside: "a < base \<or> base + length cs \<le> a \<Longrightarrow> alloc base cs h a = h a"
  by (auto simp add: alloc_def)

text \<open>When the set and its cards are there, the load returns the working set.\<close>

lemma fetchSetAndCards_Loaded:
  assumes "load_condition db setId = Loaded"
  shows "\<exists>s. filter (\<lambda>s. fset_id s = setId) (flashcard_sets db) = [s]
     \<and> fetchSetAndCards db setId clock base st h =
        (alloc base
           (map (\<lambda>(k, card). card\<lparr>confidence := Some 50, lastSeen := Some (clock k)\<rparr>)
              (enumerate 0
                 (sort_key position (filter (\<lambda>c. set_id c = setId) (flashcards_table db)))))
           h,
         st\<lparr>setTitle := title s,
            flashcards := [base..<base + length (filter (\<lambda>c. set_id c = setId) (flashcards_table db))],
            isLoading := False\<rparr>,
         [Query ''flashcard_sets'', Query ''flashcards''])"
  using assms
  by (auto simp add: load_condition_def fetchSetAndCards_def query_set_title_def
      query_cards_def Let_def split: if_splits list.splits option.splits)

text \<open>
  Claim C4. Let the set exist and have cards, and let \<open>rows\<close> be its rows as the data
  store returns them for \<^verbatim>\<open>order("position")\<close>: the rows of the set, each once, sorted
  by position. Then the load installs one new card object per row, in that order; the
  object at index \<open>k\<close> is the row at index \<open>k\<close> with confidence 50 and with
  \<^verbatim>\<open>lastSeen\<close> set to what \<^verbatim>\<open>Date.now()\<close> returned when that card was mapped. No
  notification is raised and the user is not routed away.
\<close>

theorem fetchSetAndCards_working_set:
  assumes ok: "load_condition db setId = Loaded"
    and run: "fetchSetAndCards db setId clock base st h = (h1, st1, fx)"
    and rows: "rows = sort_key position (filter (\<lambda>c. set_id c = setId) (flashcards_table db))"
  shows "rows \<noteq> []
    \<and> mset rows = mset (filter (\<lambda>c. set_id c = setId) (flashcards_table db))
    \<and> sorted (map position rows)
    \<and> length (flashcards st1) = length rows
    \<and> distinct (flashcards st1)
    \<and> (\<forall>k < length rows.
          h1 (flashcards st1 ! k) = (rows ! k)\<lparr>confidence := Some 50, lastSeen := Some (clock k)\<rparr>)
    \<and> (\<forall>a \<in> set (flashcards st1). confidence (h1 a) = Some 50)
    \<and> isLoading st1 = False
    \<and> fx = [Query ''flashcard_sets'', Query ''flashcards'']"
proof -
  let ?cs = "map (\<lambda>(k, card). card\<lparr>confidence := Some 50, lastSeen := Some (clock k)\<rparr>)
               (enumerate 0 rows)"
  have len: "length ?cs = length rows" by simp
  from fetchSetAndCards_Loaded [OF ok, of clock base st h] run rows
  have h1: "h1 = alloc base ?cs h"
    and fs: "flashcards st1 = [base..<base + length rows]"
    and ld: "isLoading st1 = False"
    and fx: "fx = [Query ''flashcard_sets'', Query ''flashcards'']"
    by auto
  have "filter (\<lambda>c. set_id c = setId) (flashcards_table db) \<noteq> []"
    using ok by (auto simp add: load_condition_def split: if_splits list.splits)
  then have ne: "rows \<noteq> []"
    unfolding rows by (metis length_sort length_0_conv)
  have ms: "mset rows = mset (filter (\<lambda>c. set_id c = setId) (flashcards_table db))"
    by (simp add: rows)
  have so: "sorted (map position rows)" by (simp add: rows)
  have nth: "\<forall>k < length rows.
      h1 (flashcards st1 ! k) = (rows ! k)\<lparr>confidence := Some 50, lastSeen := Some (clock k)\<rparr>"
  proof (intro allI impI)
    fix k assume k: "k < length rows"
    then have "alloc base ?cs h ([base..<base + length ?cs] ! k) = ?cs ! k"
      using alloc_nth [of k ?cs base h] len by simp
    then show "h1 (flashcards st1 ! k)
        = (rows ! k)\<lparr>confidence := Some 50, lastSeen := Some (clock k)\<rparr>"
      using k nth_cardsWithMetrics [OF k, of clock] by (simp add: h1 fs)
  qed
  have conf: "\<forall>a \<in> set (flashcards st1). confidence (h1 a) = Some 50"
  proof
    fix a assume "a \<in> set (flashcards st1)"
    then obtain k where k: "k < length rows" and a: "a = flashcards st1 ! k"
      by (metis fs in_set_conv_nth length_upt add_diff_cancel_left')
    with nth show "confidence (h1 a) = Some 50" by simp
  qed
  from ne ms so nth conf ld fx show ?thesis by (simp add: fs)
qed

text \<open>
  Claim C5, as amended. The load ends without a working set in three cases, and in no
  other. If the set has no row, it notifies \<^verbatim>\<open>Set not found\<close>. If the set has no card,
  it stores the title and notifies \<^verbatim>\<open>This set has no flashcards\<close>. If a lookup fails,
  the \<^verbatim>\<open>catch\<close> block notifies \<^verbatim>\<open>Failed to load flashcards\<close>; when it is the lookup
  of the cards that fails, the title has been stored and both queries have been sent.
  In each of the three the store and the array of cards are left as they were, the
  loading flag is cleared, the user is routed to \<^verbatim>\<open>/\<close>, and each query has been sent
  once at most: nothing is retried. Otherwise both queries are sent once, a non-empty
  array is installed and the user is not routed away.
\<close>

theorem fetchSetAndCards_failures:
  "(load_condition db setId = NotFound \<longrightarrow>
      fetchSetAndCards db setId clock base st h
        = (h, st\<lparr>isLoading := False\<rparr>,
           [Query ''flashcard_sets'', ToastError ''Set not found'', Navigate ''/'']))
   \<and> (load_condition db setId = EmptySet \<longrightarrow>
      (\<exists>s. filter (\<lambda>s. fset_id s = setId) (flashcard_sets db) = [s]
        \<and> fetchSetAndCards db setId clock base st h
        = (h, st\<lparr>setTitle := title s, isLoading := False\<rparr>,
           [Query ''flashcard_sets'', Query ''flashcards'',
            ToastError ''This set has no flashcards'', Navigate ''/''])))
   \<and> (load_condition db setId = FetchError \<longrightarrow>
      ((sets_fault db \<noteq> None
          \<or> 1 < length (filter (\<lambda>s. fset_id s = setId) (flashcard_sets db)))
       \<and> fetchSetAndCards db setId clock base st h
        = (h, st\<lparr>isLoading := False\<rparr>,
           [Query ''flashcard_sets'', ToastError ''Failed to load flashcards'', Navigate ''/'']))
      \<or> (\<exists>s. sets_fault db = None
        \<and> filter (\<lambda>s. fset_id s = setId) (flashcard_sets db) = [s]
        \<and> cards_fault db \<noteq> None
        \<and> fetchSetAndCards db setId clock base st h
        = (h, st\<lparr>setTitle := title s, isLoading := False\<rparr>,
           [Query ''flashcard_sets'', Query ''flashcards'',
            ToastError ''Failed to load flashcards'', Navigate ''/''])))
   \<and> (load_condition db setId = Loaded \<longrightarrow>
      flashcards (fst (snd (fetchSetAndCards db setId clock base st h))) \<noteq> []
      \<and> snd (snd (fetchSetAndCards db setId clock base st h))
          = [Query ''flashcard_sets'', Query ''flashcards''])
   \<and> (Navigate ''/'' \<in> set (snd (snd (fetchSetAndCards db setId clock base st h)))
        \<longleftrightarrow> load_condition db setId \<in> {NotFound, EmptySet, FetchError})"
proof -
  have nf: "load_condition db setId = NotFound \<longrightarrow>
      fetchSetAndCards db setId clock base st h
        = (h, st\<lparr>isLoading := False\<rparr>,
           [Query ''flashcard_sets'', ToastError ''Set not found'', Navigate ''/''])"
    by (auto simp add: load_condition_def fetchSetAndCards_def query_set_title_def
        Let_def split: if_splits list.splits option.splits)
  have em: "load_condition db setId = EmptySet \<longrightarrow>
      (\<exists>s. filter (\<lambda>s. fset_id s = setId) (flashcard_sets db) = [s]
        \<and> fetchSetAndCards db setId clock base st h
        = (h, st\<lparr>setTitle := title s, isLoading := False\<rparr>,
           [Query ''flashcard_sets'', Query ''flashcards'',
            ToastError ''This set has no flashcards'', Navigate ''/'']))"
    by (auto simp add: load_condition_def fetchSetAndCards_def query_set_title_def
        query_cards_def Let_def split: if_splits list.splits option.splits)
  have fe: "load_condition db setId = FetchError \<longrightarrow>
      ((sets_fault db \<noteq> None
          \<or> 1 < length (filter (\<lambda>s. fset_id s = setId) (flashcard_sets db)))
       \<and> fetchSetAndCards db setId clock base st h
        = (h, st\<lparr>isLoading := False\<rparr>,
           [Query ''flashcard_sets'', ToastError ''Failed to load flashcards'', Navigate ''/'']))
      \<or> (\<exists>s. sets_fault db = None
        \<and> filter (\<lambda>s. fset_id s = setId) (flashcard_sets db) = [s]
        \<and> cards_fault db \<noteq> None
        \<and> fetchSetAndCards db setId clock base st h
        = (h, st\<lparr>setTitle := title s, isLoading := False\<rparr>,
           [Query ''flashcard_sets'', Query ''flashcards'',
            ToastError ''Failed to load flashcards'', Navigate ''/'']))"
    by (auto simp add: load_condition_def fetchSetAndCards_def query_set_title_def
        query_cards_def load_failed_def Let_def split: if_splits list.splits option.splits)
  have ld: "load_condition db setId = Loaded \<longrightarrow>
      flashcards (fst (snd (fetchSetAndCards db setId clock base st h))) \<noteq> []
      \<and> snd (snd (fetchSetAndCards db setId clock base st h))
          = [Query ''flashcard_sets'', Query ''flashcards'']"
    using fetchSetAndCards_Loaded [of db setId clock base st h]
    by (auto simp add: load_condition_def split: if_splits list.splits)
  have nav: "Navigate ''/'' \<in> set (snd (snd (fetchSetAndCards db setId clock base st h)))
        \<longleftrightarrow> load_condition db setId \<in> {NotFound, EmptySet, FetchError}"
    using nf em fe ld by (cases "load_condition db setId") auto
  from nf em fe ld nav show ?thesis by (intro conjI)
qed

text \<open>
  The set \<^verbatim>\<open>s1\<close> of the example database: its cards are stored in the order c, a, b
  and come out in the position order a, b, c, at the addresses 10, 11 and 12.
\<close>

theorem fetchSetAndCards_working_set_witness:
  "load_condition example_db ''s1'' = Loaded
   \<and> fetchSetAndCards example_db ''s1'' (\<lambda>k. 1000 + int k) 10 loading (store_of [])
       = (alloc 10
            [blank_card\<lparr>card_id := ''a'', set_id := ''s1'', position := 0,
                         confidence := Some 50, lastSeen := Some 1000\<rparr>,
             blank_card\<lparr>card_id := ''b'', set_id := ''s1'', position := 1,
                         confidence := Some 50, lastSeen := Some 1001\<rparr>,
             blank_card\<lparr>card_id := ''c'', set_id := ''s1'', position := 2,
                         confidence := Some 50, lastSeen := Some 1002\<rparr>]
            (store_of []),
          loading\<lparr>setTitle := ''Biology'', flashcards := [10, 11, 12], isLoading := False\<rparr>,
          [Query ''flashcard_sets'', Query ''flashcards''])
   \<and> map (\<lambda>a. card_id (fst (fetchSetAndCards example_db ''s1'' (\<lambda>k. 1000 + int k) 10 loading
                               (store_of [])) a)) [10, 11, 12]
       = [''a'', ''b'', ''c'']"
  using fetchSetAndCards_working_set
    [where db = example_db and setId = "''s1''" and clock = "\<lambda>k. 1000 + int k" and base = 10
       and st = loading and h = "store_of []"
       and rows = "[blank_card\<lparr>card_id := ''a'', set_id := ''s1'', position := 0\<rparr>,
                    blank_card\<lparr>card_id := ''b'', set_id := ''s1'', position := 1\<rparr>,
                    blank_card\<lparr>card_id := ''c'', set_id := ''s1'', position := 2\<rparr>]"]
  by (simp add: load_condition_def fetchSetAndCards_def query_set_title_def query_cards_def
      example_db_def loading_def ready_def blank_card_def alloc_def Let_def)

text \<open>
  The example database: \<^verbatim>\<open>s9\<close> has no row, \<^verbatim>\<open>s3\<close> has no card, a fault on either
  lookup fails the load of \<^verbatim>\<open>s1\<close>, and \<^verbatim>\<open>s1\<close> loads when there is no fault.
\<close>

theorem fetchSetAndCards_failures_witness:
  "load_condition example_db ''s9'' = NotFound
   \<and> fetchSetAndCards example_db ''s9'' (\<lambda>k. 1000 + int k) 10 loading (store_of [])
       = (store_of [], loading\<lparr>isLoading := False\<rparr>,
          [Query ''flashcard_sets'', ToastError ''Set not found'', Navigate ''/''])
   \<and> load_condition example_db ''s3'' = EmptySet
   \<and> fetchSetAndCards example_db ''s3'' (\<lambda>k. 1000 + int k) 10 loading (store_of [])
       = (store_of [], loading\<lparr>setTitle := ''Empty'', isLoading := False\<rparr>,
          [Query ''flashcard_sets'', Query ''flashcards'',
           ToastError ''This set has no flashcards'', Navigate ''/''])
   \<and> load_condition (example_db\<lparr>sets_fault := Some ''offline''\<rparr>) ''s1'' = FetchError
   \<and> fetchSetAndCards (example_db\<lparr>sets_fault := Some ''offline''\<rparr>) ''s1''
         (\<lambda>k. 1000 + int k) 10 loading (store_of [])
       = (store_of [], loading\<lparr>isLoading := False\<rparr>,
          [Query ''flashcard_sets'', ToastError ''Failed to load flashcards'', Navigate ''/''])
   \<and> load_condition (example_db\<lparr>cards_fault := Some ''timeout''\<rparr>) ''s1'' = FetchError
   \<and> fetchSetAndCards (example_db\<lparr>cards_fault := Some ''timeout''\<rparr>) ''s1''
         (\<lambda>k. 1000 + int k) 10 loading (store_of [])
       = (store_of [], loading\<lparr>setTitle := ''Biology'', isLoading := False\<rparr>,
          [Query ''flashcard_sets'', Query ''flashcards'',
           ToastError ''Failed to load flashcards'', Navigate ''/''])
   \<and> load_condition example_db ''s1'' = Loaded
   \<and> snd (snd (fetchSetAndCards example_db ''s1'' (\<lambda>k. 1000 + int k) 10 loading (store_of [])))
       = [Query ''flashcard_sets'', Query ''flashcards'']"
  using fetchSetAndCards_failures
    [where db = example_db and setId = "''s9''" and clock = "\<lambda>k. 1000 + int k" and base = 10
       and st = loading and h = "store_of []"]
    fetchSetAndCards_failures
    [where db = example_db and setId = "''s3''" and clock = "\<lambda>k. 1000 + int k" and base = 10
       and st = loading and h = "store_of []"]
    fetchSetAndCards_failures
    [where db = "example_db\<lparr>sets_fault := Some ''offline''\<rparr>" and setId = "''s1''"
       and clock = "\<lambda>k. 1000 + int k" and base = 10 and st = loading and h = "store_of []"]
    fetchSetAndCards_failures
    [where db = "example_db\<lparr>cards_fault := Some ''timeout''\<rparr>" and setId = "''s1''"
       and clock = "\<lambda>k. 1000 + int k" and base = 10 and st = loading and h = "store_of []"]
    fetchSetAndCards_failures
    [where db = example_db and setId = "''s1''" and clock = "\<lambda>k. 1000 + int k" and base = 10
       and st = loading and h = "store_of []"]
  by (simp add: load_condition_def fetchSetAndCards_def query_set_title_def query_cards_def
      load_failed_def example_db_def loading_def ready_def blank_card_def Let_def)

text \<open>
  Claim C5 as stated has a fetch error treated identically to a set that is not found.
  The two end differently. For the same set and the same state, a failed lookup of the
  set notifies \<^verbatim>\<open>Failed to load flashcards\<close> where a missing set notifies
  \<^verbatim>\<open>Set not found\<close>; and a failed lookup of the cards leaves the title stored and a
  second query sent.
\<close>

theorem fetch_error_differs_from_not_found:
  "fetchSetAndCards (example_db\<lparr>sets_fault := Some ''offline''\<rparr>) ''s9''
       (\<lambda>k. 1000 + int k) 10 loading (store_of [])
     = (store_of [], loading\<lparr>isLoading := False\<rparr>,
        [Query ''flashcard_sets'', ToastError ''Failed to load flashcards'', Navigate ''/''])
   \<and> fetchSetAndCards example_db ''s9'' (\<lambda>k. 1000 + int k) 10 loading (store_of [])
     = (store_of [], loading\<lparr>isLoading := False\<rparr>,
        [Query ''flashcard_sets'', ToastError ''Set not found'', Navigate ''/''])
   \<and> fetchSetAndCards (example_db\<lparr>sets_fault := Some ''offline''\<rparr>) ''s9''
       (\<lambda>k. 1000 + int k) 10 loading (store_of [])
     \<noteq> fetchSetAndCards example_db ''s9'' (\<lambda>k. 1000 + int k) 10 loading (store_of [])
   \<and> fetchSetAndCards (example_db\<lparr>cards_fault := Some ''timeout''\<rparr>) ''s1''
       (\<lambda>k. 1000 + int k) 10 loading (store_of [])
     = (store_of [], loading\<lparr>setTitle := ''Biology'', isLoading := False\<rparr>,
        [Query ''flashcard_sets'', Query ''flashcards'',
         ToastError ''Failed to load flashcards'', Navigate ''/''])"
  by (simp add: fetchSetAndCards_def query_set_title_def query_cards_def
      load_failed_def example_db_def loading_def ready_def blank_card_def Let_def)

section \<open>Typing-mode answers\<close>

text \<open>
  \<^verbatim>\<open>trim\<close> removes white space at both ends and nothing else: the string is its
  trimmed form between two runs of white space, and the trimmed form neither begins nor
  ends with white space. That determines the trimmed form.
\<close>

lemma trim_decompose:
  "\<exists>l r. s = l @ trim s @ r \<and> (\<forall>c \<in> set l. js_whitespace c) \<and> (\<forall>c \<in> set r. js_whitespace c)"
proof -
  define m where "m = dropWhile js_whitespace s"
  have 1: "s = takeWhile js_whitespace s @ m" by (simp add: m_def)
  have "rev m = takeWhile js_whitespace (rev m) @ dropWhile js_whitespace (rev m)"
    by simp
  then have "rev (rev m)
      = rev (takeWhile js_whitespace (rev m) @ dropWhile js_whitespace (rev m))"
    by (rule arg_cong)
  then have "m = rev (dropWhile js_whitespace (rev m)) @ rev (takeWhile js_whitespace (rev m))"
    by (simp only: rev_rev_ident rev_append)
  then have 2: "m = trim s @ rev (takeWhile js_whitespace (rev m))"
    unfolding trim_def m_def .
  have "s = takeWhile js_whitespace s @ trim s @ rev (takeWhile js_whitespace (rev m))"
    using 1 2 by simp
  moreover have "\<forall>c \<in> set (takeWhile js_whitespace s). js_whitespace c"
    by (auto dest: set_takeWhileD)
  moreover have "\<forall>c \<in> set (rev (takeWhile js_whitespace (rev m))). js_whitespace c"
    by (auto dest: set_takeWhileD)
  ultimately show ?thesis by blast
qed

lemma trim_no_outer_whitespace:
  assumes "trim s \<noteq> []"
  shows "\<not> js_whitespace (hd (trim s)) \<and> \<not> js_whitespace (last (trim s))"
proof -
  define m where "m = dropWhile js_whitespace s"
  define d where "d = dropWhile js_whitespace (rev m)"
  have t: "trim s = rev d" by (simp add: trim_def d_def m_def)
  with assms have d: "d \<noteq> []" by simp
  have m: "m \<noteq> []"
  proof
    assume "m = []"
    then have "d = []" by (simp add: d_def)
    with d show False by simp
  qed
  have "\<not> js_whitespace (hd d)" using d unfolding d_def by (rule hd_dropWhile)
  moreover have "last (rev d) = hd d" by (simp add: last_rev)
  ultimately have l: "\<not> js_whitespace (last (trim s))" by (simp add: t)
  have "takeWhile js_whitespace (rev m) @ d = rev m"
    unfolding d_def by (rule takeWhile_dropWhile_id)
  moreover have "last (takeWhile js_whitespace (rev m) @ d) = last d"
    using d by (rule last_appendR)
  ultimately have "last (rev m) = last d" by simp
  moreover have "last (rev m) = hd m" by (simp add: last_rev)
  moreover have "hd (rev d) = last d" by (simp add: hd_rev)
  ultimately have "hd (trim s) = hd m" by (simp add: t)
  moreover have "\<not> js_whitespace (hd m)" using m unfolding m_def by (rule hd_dropWhile)
  ultimately show ?thesis using l by simp
qed

lemma trim_surrounded:
  assumes l: "\<forall>c \<in> set l. js_whitespace c" and r: "\<forall>c \<in> set r. js_whitespace c"
  shows "trim (l @ s @ r) = trim s"
proof -
  have a: "dropWhile js_whitespace (l @ s @ r) = dropWhile js_whitespace (s @ r)"
    using l by simp
  show ?thesis
  proof (cases "\<forall>c \<in> set s. js_whitespace c")
    case True
    have 1: "dropWhile js_whitespace (s @ r) = []"
      using True r by (simp add: ball_Un)
    have 2: "dropWhile js_whitespace s = []"
      using True by simp
    show ?thesis unfolding trim_def a 1 2 by simp
  next
    case False
    then obtain x where "x \<in> set s" and "\<not> js_whitespace x" by blast
    then have 3: "dropWhile js_whitespace (s @ r) = dropWhile js_whitespace s @ r"
      by (rule dropWhile_append1)
    have "\<And>c. c \<in> set (rev r) \<Longrightarrow> js_whitespace c" using r by simp
    then have 4: "dropWhile js_whitespace (rev r @ rev (dropWhile js_whitespace s))
        = dropWhile js_whitespace (rev (dropWhile js_whitespace s))"
      by (rule dropWhile_append2)
    show ?thesis unfolding trim_def a 3 rev_append 4 by (rule refl)
  qed
qed

lemma trim_core:
  assumes "c = [] \<or> (\<not> js_whitespace (hd c) \<and> \<not> js_whitespace (last c))"
  shows "trim c = c"
proof (cases "c = []")
  case True
  then show ?thesis by (simp add: trim_def)
next
  case False
  with assms have h: "\<not> js_whitespace (hd c)" and l: "\<not> js_whitespace (last c)" by simp_all
  have 1: "dropWhile js_whitespace c = c" using False h by (cases c) simp_all
  have "rev c \<noteq> []" and "\<not> js_whitespace (hd (rev c))" using False l by (simp_all add: hd_rev)
  then have 2: "dropWhile js_whitespace (rev c) = rev c" by (cases "rev c") simp_all
  show ?thesis unfolding trim_def 1 2 by simp
qed

lemma trim_eq_iff:
  "trim s = c \<longleftrightarrow>
     (\<exists>l r. s = l @ c @ r \<and> (\<forall>x \<in> set (l @ r). js_whitespace x)
        \<and> (c = [] \<or> (\<not> js_whitespace (hd c) \<and> \<not> js_whitespace (last c))))"
proof
  assume t: "trim s = c"
  from trim_decompose [of s] obtain l r where "s = l @ trim s @ r"
    and "\<forall>x \<in> set l. js_whitespace x" and "\<forall>x \<in> set r. js_whitespace x" by blast
  moreover have "trim s = [] \<or> (\<not> js_whitespace (hd (trim s)) \<and> \<not> js_whitespace (last (trim s)))"
    using trim_no_outer_whitespace [of s] by blast
  ultimately show "\<exists>l r. s = l @ c @ r \<and> (\<forall>x \<in> set (l @ r). js_whitespace x)
        \<and> (c = [] \<or> (\<not> js_whitespace (hd c) \<and> \<not> js_whitespace (last c)))"
    unfolding t by auto
next
  assume "\<exists>l r. s = l @ c @ r \<and> (\<forall>x \<in> set (l @ r). js_whitespace x)
        \<and> (c = [] \<or> (\<not> js_whitespace (hd c) \<and> \<not> js_whitespace (last c)))"
  then obtain l r where s: "s = l @ c @ r"
    and l: "\<forall>x \<in> set l. js_whitespace x" and r: "\<forall>x \<in> set r. js_whitespace x"
    and c: "c = [] \<or> (\<not> js_whitespace (hd c) \<and> \<not> js_whitespace (last c))" by auto
  have "trim s = trim c" unfolding s using l r by (rule trim_surrounded)
  also have "\<dots> = c" using c by (rule trim_core)
  finally show "trim s = c" .
qed

text \<open>
  The judgement without \<^verbatim>\<open>trim\<close>: the two strings, in lower case, are one and the
  same core between runs of white space.
\<close>

lemma answerMatches_common_core:
  "answerMatches toLowerCase answer d \<longleftrightarrow>
     (\<exists>l1 r1 l2 r2 c. toLowerCase answer = l1 @ c @ r1 \<and> toLowerCase d = l2 @ c @ r2
        \<and> (\<forall>x \<in> set (l1 @ r1 @ l2 @ r2). js_whitespace x)
        \<and> (c = [] \<or> (\<not> js_whitespace (hd c) \<and> \<not> js_whitespace (last c))))"
proof
  assume "answerMatches toLowerCase answer d"
  then have e: "trim (toLowerCase d) = trim (toLowerCase answer)" by (simp add: answerMatches_def)
  have "trim (toLowerCase answer) = trim (toLowerCase answer)" by simp
  then obtain l1 r1 where 1: "toLowerCase answer = l1 @ trim (toLowerCase answer) @ r1"
    "\<forall>x \<in> set (l1 @ r1). js_whitespace x"
    "trim (toLowerCase answer) = []
       \<or> (\<not> js_whitespace (hd (trim (toLowerCase answer)))
           \<and> \<not> js_whitespace (last (trim (toLowerCase answer))))"
    unfolding trim_eq_iff by blast
  from e obtain l2 r2 where 2: "toLowerCase d = l2 @ trim (toLowerCase answer) @ r2"
    "\<forall>x \<in> set (l2 @ r2). js_whitespace x"
    unfolding trim_eq_iff by blast
  from 1 2 have "toLowerCase answer = l1 @ trim (toLowerCase answer) @ r1
      \<and> toLowerCase d = l2 @ trim (toLowerCase answer) @ r2
      \<and> (\<forall>x \<in> set (l1 @ r1 @ l2 @ r2). js_whitespace x)
      \<and> (trim (toLowerCase answer) = []
          \<or> (\<not> js_whitespace (hd (trim (toLowerCase answer)))
              \<and> \<not> js_whitespace (last (trim (toLowerCase answer)))))"
    by auto
  then show "\<exists>l1 r1 l2 r2 c. toLowerCase answer = l1 @ c @ r1 \<and> toLowerCase d = l2 @ c @ r2
        \<and> (\<forall>x \<in> set (l1 @ r1 @ l2 @ r2). js_whitespace x)
        \<and> (c = [] \<or> (\<not> js_whitespace (hd c) \<and> \<not> js_whitespace (last c)))"
    by blast
next
  assume "\<exists>l1 r1 l2 r2 c. toLowerCase answer = l1 @ c @ r1 \<and> toLowerCase d = l2 @ c @ r2
        \<and> (\<forall>x \<in> set (l1 @ r1 @ l2 @ r2). js_whitespace x)
        \<and> (c = [] \<or> (\<not> js_whitespace (hd c) \<and> \<not> js_whitespace (last c)))"
  then obtain l1 r1 l2 r2 c where a: "toLowerCase answer = l1 @ c @ r1"
    and d: "toLowerCase d = l2 @ c @ r2"
    and w: "\<forall>x \<in> set (l1 @ r1 @ l2 @ r2). js_whitespace x"
    and c: "c = [] \<or> (\<not> js_whitespace (hd c) \<and> \<not> js_whitespace (last c))" by blast
  have "trim (toLowerCase answer) = c"
    unfolding trim_eq_iff using a w c by auto
  moreover have "trim (toLowerCase d) = c"
    unfolding trim_eq_iff using d w c by auto
  ultimately show "answerMatches toLowerCase answer d" by (simp add: answerMatches_def)
qed


text \<open>The Latin-1 mapping is the Basic Latin one on strings of the Basic Latin block.\<close>

lemma latin1_lower_basic_latin:
  "\<forall>c \<in> set s. c < 128 \<Longrightarrow> map latin1_lower s = map ascii_lower s"
  by (induction s) (auto simp add: latin1_lower_def ascii_lower_def)

text \<open>
  Claim C6. In typing mode an answer is judged correct exactly when the answer and the
  definition, each put in lower case and trimmed of white space at both ends, are
  equal: that is, when in lower case they are the same core between runs of white
  space. That judgement is what the \<^verbatim>\<open>Continue\<close> button passes to \<^verbatim>\<open>handleAnswer\<close>.
  The case mapping is the engine's, of which the theorem assumes what Unicode fixes for
  the Basic Latin block; for answers and definitions of that block the judgement is
  the equality of the trimmed strings with the letters A to Z replaced by a to z. The
  answer \<^verbatim>\<open>" Paris "\<close> is correct for the definition \<^verbatim>\<open>"Paris"\<close>, the answer
  \<^verbatim>\<open>"paris,"\<close> is not, and the answer \<^verbatim>\<open>"PARIS"\<close> is correct for \<^verbatim>\<open>"paris"\<close>. White
  space is all of ECMAScript's: a byte order mark, an ideographic space, a no-break
  space and a line separator are trimmed.
\<close>

theorem answerMatches_lowercase_trimmed:
  assumes lat: "\<And>s. \<forall>c \<in> set s. c < 128 \<Longrightarrow> toLowerCase s = map ascii_lower s"
  shows "(answerMatches toLowerCase answer d
            \<longleftrightarrow> trim (toLowerCase answer) = trim (toLowerCase d))
    \<and> (answerMatches toLowerCase answer d \<longleftrightarrow>
         (\<exists>l1 r1 l2 r2 c. toLowerCase answer = l1 @ c @ r1 \<and> toLowerCase d = l2 @ c @ r2
            \<and> (\<forall>x \<in> set (l1 @ r1 @ l2 @ r2). js_whitespace x)
            \<and> (c = [] \<or> (\<not> js_whitespace (hd c) \<and> \<not> js_whitespace (last c)))))
    \<and> ((\<forall>x \<in> set (answer @ d). x < 128) \<longrightarrow>
         (answerMatches toLowerCase answer d
            \<longleftrightarrow> trim (map ascii_lower answer) = trim (map ascii_lower d)))
    \<and> (currentIndex st < length (flashcards st) \<longrightarrow>
         handleContinue toLowerCase st h now
           = handleAnswer st h
               (trim (toLowerCase (userAnswer st))
                  = trim (toLowerCase (definition_text (h (flashcards st ! currentIndex st)))))
               now)
    \<and> answerMatches toLowerCase (utf16 '' Paris '') (utf16 ''Paris'')
    \<and> \<not> answerMatches toLowerCase (utf16 ''paris,'') (utf16 ''Paris'')
    \<and> answerMatches toLowerCase (utf16 ''PARIS'') (utf16 ''paris'')
    \<and> trim ([0xFEFF, 0x3000] @ utf16 ''Paris'' @ [0xA0, 0x2028]) = utf16 ''Paris''"
proof -
  have c1: "answerMatches toLowerCase answer d
      \<longleftrightarrow> trim (toLowerCase answer) = trim (toLowerCase d)"
    by (simp add: answerMatches_def)
  note c2 = answerMatches_common_core [of toLowerCase answer d]
  have c3: "(\<forall>x \<in> set (answer @ d). x < 128) \<longrightarrow>
      (answerMatches toLowerCase answer d
         \<longleftrightarrow> trim (map ascii_lower answer) = trim (map ascii_lower d))"
  proof
    assume a: "\<forall>x \<in> set (answer @ d). x < 128"
    then have "toLowerCase answer = map ascii_lower answer"
      and "toLowerCase d = map ascii_lower d"
      by (simp_all add: lat)
    then show "answerMatches toLowerCase answer d
         \<longleftrightarrow> trim (map ascii_lower answer) = trim (map ascii_lower d)"
      by (simp add: answerMatches_def)
  qed
  have c4: "currentIndex st < length (flashcards st) \<longrightarrow>
      handleContinue toLowerCase st h now
        = handleAnswer st h
            (trim (toLowerCase (userAnswer st))
               = trim (toLowerCase (definition_text (h (flashcards st ! currentIndex st)))))
            now"
    by (simp add: handleContinue_def answerMatches_def)
  have l1: "toLowerCase (utf16 '' Paris '') = map ascii_lower (utf16 '' Paris '')"
    by (rule lat) (simp add: utf16_def)
  have l2: "toLowerCase (utf16 ''Paris'') = map ascii_lower (utf16 ''Paris'')"
    by (rule lat) (simp add: utf16_def)
  have l3: "toLowerCase (utf16 ''paris,'') = map ascii_lower (utf16 ''paris,'')"
    by (rule lat) (simp add: utf16_def)
  have l4: "toLowerCase (utf16 ''PARIS'') = map ascii_lower (utf16 ''PARIS'')"
    by (rule lat) (simp add: utf16_def)
  have l5: "toLowerCase (utf16 ''paris'') = map ascii_lower (utf16 ''paris'')"
    by (rule lat) (simp add: utf16_def)
  have c5: "answerMatches toLowerCase (utf16 '' Paris '') (utf16 ''Paris'')"
    unfolding answerMatches_def l1 l2
    by (simp add: utf16_def trim_def ascii_lower_def js_whitespace_def)
  have c6: "\<not> answerMatches toLowerCase (utf16 ''paris,'') (utf16 ''Paris'')"
    unfolding answerMatches_def l2 l3
    by (simp add: utf16_def trim_def ascii_lower_def js_whitespace_def)
  have c7: "answerMatches toLowerCase (utf16 ''PARIS'') (utf16 ''paris'')"
    unfolding answerMatches_def l4 l5
    by (simp add: utf16_def trim_def ascii_lower_def js_whitespace_def)
  have c8: "trim ([0xFEFF, 0x3000] @ utf16 ''Paris'' @ [0xA0, 0x2028]) = utf16 ''Paris''"
    by (simp add: utf16_def trim_def js_whitespace_def)
  from c1 c2 c3 c4 c5 c6 c7 c8 show ?thesis by blast
qed

text \<open>
  With the Latin-1 case mapping, and a card defined as \<^verbatim>\<open>Paris\<close>: \<^verbatim>\<open>Continue\<close> scores
  the answer \<^verbatim>\<open>" Paris "\<close> as correct and the answer \<^verbatim>\<open>"paris,"\<close> as incorrect.
\<close>

theorem answerMatches_lowercase_trimmed_witness:
  "answerMatches (map latin1_lower) (utf16 ''PARIS'') (utf16 ''paris'')
   \<and> answerMatches (map latin1_lower) (utf16 '' Paris '') (utf16 ''Paris'')
   \<and> \<not> answerMatches (map latin1_lower) (utf16 ''paris,'') (utf16 ''Paris'')
   \<and> currentIndex ((ready 1 0 True)\<lparr>typingMode := True, userAnswer := utf16 '' Paris ''\<rparr>)
       < length (flashcards
           ((ready 1 0 True)\<lparr>typingMode := True, userAnswer := utf16 '' Paris ''\<rparr>))
   \<and> handleContinue (map latin1_lower)
         ((ready 1 0 True)\<lparr>typingMode := True, userAnswer := utf16 '' Paris ''\<rparr>)
         (\<lambda>a. blank_card\<lparr>definition_text := utf16 ''Paris'', confidence := Some 50\<rparr>) 7
       = handleAnswer ((ready 1 0 True)\<lparr>typingMode := True, userAnswer := utf16 '' Paris ''\<rparr>)
         (\<lambda>a. blank_card\<lparr>definition_text := utf16 ''Paris'', confidence := Some 50\<rparr>) True 7
   \<and> handleContinue (map latin1_lower)
         ((ready 1 0 True)\<lparr>typingMode := True, userAnswer := utf16 ''paris,''\<rparr>)
         (\<lambda>a. blank_card\<lparr>definition_text := utf16 ''Paris'', confidence := Some 50\<rparr>) 7
       = handleAnswer ((ready 1 0 True)\<lparr>typingMode := True, userAnswer := utf16 ''paris,''\<rparr>)
         (\<lambda>a. blank_card\<lparr>definition_text := utf16 ''Paris'', confidence := Some 50\<rparr>) False 7"
proof -
  let ?h = "\<lambda>a. blank_card\<lparr>definition_text := utf16 ''Paris'', confidence := Some 50\<rparr>"
  let ?s1 = "(ready 1 0 True)\<lparr>typingMode := True, userAnswer := utf16 '' Paris ''\<rparr>"
  let ?s2 = "(ready 1 0 True)\<lparr>typingMode := True, userAnswer := utf16 ''paris,''\<rparr>"
  note T1 = answerMatches_lowercase_trimmed
      [of "map latin1_lower" "[]" "[]" ?s1 ?h 7, OF latin1_lower_basic_latin]
  note T2 = answerMatches_lowercase_trimmed
      [of "map latin1_lower" "[]" "[]" ?s2 ?h 7, OF latin1_lower_basic_latin]
  note c = conjunct2 [THEN conjunct2, THEN conjunct2]
  have i1: "currentIndex ?s1 < length (flashcards ?s1)" by (simp add: ready_def)
  have i2: "currentIndex ?s2 < length (flashcards ?s2)" by (simp add: ready_def)
  have m1: "answerMatches (map latin1_lower) (utf16 '' Paris '') (utf16 ''Paris'')"
    by (rule T1 [THEN c, THEN conjunct2, THEN conjunct1])
  have m2: "\<not> answerMatches (map latin1_lower) (utf16 ''paris,'') (utf16 ''Paris'')"
    by (rule T1 [THEN c, THEN conjunct2, THEN conjunct2, THEN conjunct1])
  have m3: "answerMatches (map latin1_lower) (utf16 ''PARIS'') (utf16 ''paris'')"
    by (rule T1 [THEN c, THEN c, THEN conjunct1])
  have k1: "handleContinue (map latin1_lower) ?s1 ?h 7 = handleAnswer ?s1 ?h True 7"
    using T1 [THEN c, THEN conjunct1] i1 m1
    by (simp add: answerMatches_def ready_def blank_card_def)
  have k2: "handleContinue (map latin1_lower) ?s2 ?h 7 = handleAnswer ?s2 ?h False 7"
    using T2 [THEN c, THEN conjunct1] i2 m2
    by (simp add: answerMatches_def ready_def blank_card_def)
  from m3 m1 m2 i1 k1 k2 show ?thesis by (intro conjI)
qed

text \<open>Outside the Basic Latin block: the capital E with acute matches the small one
  under the Latin-1 mapping, and a no-break space after the answer is trimmed.\<close>

lemma answerMatches_latin1_examples:
  "answerMatches (map latin1_lower) [0xC9] [0xE9]
   \<and> answerMatches (map latin1_lower) (utf16 ''Paris'' @ [0xA0]) (utf16 ''Paris'')"
  by (simp add: answerMatches_def utf16_def trim_def latin1_lower_def js_whitespace_def)

section \<open>Hints\<close>

lemma split_when_nonempty: "split_when sep s \<noteq> []"
  by (induction s) (auto split: list.splits)

lemma length_split_when: "length (split_when sep s) = Suc (length (filter sep s))"
  by (induction s) (auto split: list.splits simp add: split_when_nonempty)

lemma split_when_no_separator: "\<forall>c \<in> set s. \<not> sep c \<Longrightarrow> split_when sep s = [s]"
  by (induction s) auto

lemma split_when_pieces: "w \<in> set (split_when sep s) \<Longrightarrow> c \<in> set w \<Longrightarrow> \<not> sep c"
proof (induction s arbitrary: w)
  case Nil
  then show ?case by simp
next
  case (Cons x xs)
  obtain v vs where sp: "split_when sep xs = v # vs"
    using split_when_nonempty [of sep xs] by (cases "split_when sep xs") auto
  show ?case
  proof (cases "sep x")
    case True
    with Cons.prems have "w = [] \<or> w \<in> set (split_when sep xs)" by simp
    with Cons.prems(2) Cons.IH show ?thesis by auto
  next
    case False
    with Cons.prems sp have "w = x # v \<or> w \<in> set vs" by simp
    then show ?thesis
    proof
      assume "w = x # v"
      with Cons.prems(2) have "c = x \<or> c \<in> set v" by simp
      then show ?thesis using False Cons.IH [of v] sp by auto
    next
      assume "w \<in> set vs"
      then show ?thesis using Cons.IH [of w] Cons.prems(2) sp by simp
    qed
  qed
qed

lemma join_Cons: "ws \<noteq> [] \<Longrightarrow> join sep (w # ws) = w @ sep @ join sep ws"
  by (cases ws) simp_all

text \<open>Joining the pieces with the separator gives the string back.\<close>

lemma join_split_when: "join [x] (split_when (\<lambda>c. c = x) s) = s"
proof (induction s)
  case Nil
  show ?case by simp
next
  case (Cons c cs)
  obtain v vs where sp: "split_when (\<lambda>c. c = x) cs = v # vs"
    using split_when_nonempty [of "\<lambda>c. c = x" cs] by (cases "split_when (\<lambda>c. c = x) cs") auto
  show ?case
  proof (cases "c = x")
    case True
    then show ?thesis using Cons.IH split_when_nonempty [of "\<lambda>c. c = x" cs]
      by (simp add: join_Cons)
  next
    case False
    then show ?thesis using Cons.IH sp by (cases vs) simp_all
  qed
qed

lemma join_item_first_char: "join_item (first_char w) = take 1 w"
  by (cases w) (simp_all add: join_item_def first_char_def)

lemma getHint_single:
  assumes "CHR '' '' \<notin> set t" and "t \<noteq> []"
  shows "getHint t = hd t # ''...''"
proof -
  have "split_when (\<lambda>c. c = CHR '' '') t = [t]"
    using assms(1) by (intro split_when_no_separator) auto
  then show ?thesis using assms(2)
    by (cases t) (simp_all add: getHint_def first_char_def concat_str_def)
qed

lemma getHint_several:
  assumes "CHR '' '' \<in> set t"
  shows "getHint t = join '' '' (map (take 1) (split_when (\<lambda>c. c = CHR '' '') t)) @ ''...''"
proof -
  have "filter (\<lambda>c. c = CHR '' '') t \<noteq> []"
    using assms by (simp add: filter_empty_conv)
  then have n: "length (split_when (\<lambda>c. c = CHR '' '') t) \<noteq> 1"
    by (simp add: length_split_when)
  have m: "map join_item (map first_char ws) = map (take 1) ws" for ws
    by (induction ws) (simp_all add: join_item_first_char)
  show ?thesis unfolding getHint_def Let_def m using n by simp
qed

text \<open>
  Claim C7, as amended. The hint is a function of the definition alone, and it cuts
  the definition at every space character (and at no other white space). The pieces
  contain no space and, joined by single spaces, give the definition back; two
  neighbouring spaces have an empty piece between them. A non-empty definition without
  a space yields its first character and \<^verbatim>\<open>...\<close>. A definition with a space yields the
  first character of every piece (nothing for an empty piece), joined by single spaces,
  and \<^verbatim>\<open>...\<close>. \<^verbatim>\<open>Photosynthesis\<close> yields \<^verbatim>\<open>P...\<close> and \<^verbatim>\<open>light dependent reaction\<close>
  yields \<^verbatim>\<open>l d r...\<close>.
\<close>

theorem getHint_space_pieces:
  "(CHR '' '' \<notin> set t \<and> t \<noteq> [] \<longrightarrow> getHint t = hd t # ''...'')
   \<and> (CHR '' '' \<in> set t \<longrightarrow>
        getHint t = join '' '' (map (take 1) (split_when (\<lambda>c. c = CHR '' '') t)) @ ''...'')
   \<and> join '' '' (split_when (\<lambda>c. c = CHR '' '') t) = t
   \<and> (\<forall>w \<in> set (split_when (\<lambda>c. c = CHR '' '') t). CHR '' '' \<notin> set w)
   \<and> getHint ''Photosynthesis'' = ''P...''
   \<and> getHint ''light dependent reaction'' = ''l d r...''"
proof -
  have "\<forall>w \<in> set (split_when (\<lambda>c. c = CHR '' '') t). CHR '' '' \<notin> set w"
    using split_when_pieces [of _ "\<lambda>c. c = CHR '' ''" t] by blast
  moreover have "getHint ''Photosynthesis'' = ''P...''"
    by (simp add: getHint_def first_char_def join_item_def concat_str_def)
  moreover have "getHint ''light dependent reaction'' = ''l d r...''"
    by (simp add: getHint_def first_char_def join_item_def concat_str_def)
  ultimately show ?thesis
    using getHint_single [of t] getHint_several [of t] join_split_when [of "CHR '' ''" t]
    by blast
qed

text \<open>The two examples of the specification, as instances of the theorem.\<close>

theorem getHint_space_pieces_witness:
  "CHR '' '' \<notin> set ''Photosynthesis'' \<and> ''Photosynthesis'' \<noteq> []
   \<and> getHint ''Photosynthesis'' = hd ''Photosynthesis'' # ''...''
   \<and> CHR '' '' \<in> set ''light dependent reaction''
   \<and> getHint ''light dependent reaction''
       = join '' '' (map (take 1) [''light'', ''dependent'', ''reaction'']) @ ''...''
   \<and> split_when (\<lambda>c. c = CHR '' '') ''light dependent reaction''
       = [''light'', ''dependent'', ''reaction'']"
  using getHint_space_pieces [of "''Photosynthesis''"]
    getHint_space_pieces [of "''light dependent reaction''"]
  by simp

text \<open>
  Claim C7 as stated has the words delimited by white space and their first characters
  joined by single spaces. Two words with two spaces between them give a hint with two
  spaces, and two words with a tab between them count as one word.
\<close>

theorem getHint_not_whitespace_words:
  "getHint ''a  b'' = ''a  b...''
   \<and> hint_of_whitespace_words ''a  b'' = ''a b...''
   \<and> getHint [CHR ''a'', CHR 0x09, CHR ''b''] = ''a...''
   \<and> hint_of_whitespace_words [CHR ''a'', CHR 0x09, CHR ''b''] = ''a b...''"
  by (simp add: getHint_def first_char_def join_item_def concat_str_def
      hint_of_whitespace_words_def whitespace_words_def is_whitespace_def)

end
